theory Spec2Isabelle
  imports Complex_Main
begin

section \<open>Values, strings and the insertion-ordered Map\<close>

text \<open>
  A JavaScript \<open>number\<close> is modelled as a \<^typ>\<open>real\<close> (NaN and the infinities are
  outside the model); counters and byte sizes, which only ever hold natural numbers, are
  \<^typ>\<open>nat\<close>. The rounding of IEEE doubles is modelled where the engine divides and
  multiplies to report rates, in \<open>getStats\<close> (see \<open>float64\<close> below); clock readings,
  TTLs and cached numbers are taken as they are. A cached value is a string, a number, a
  boolean, \<open>null\<close>, \<open>undefined\<close> or any other object; an object is opaque to the engine
  except for \<open>JSON.stringify\<close>, so it is represented by its serialisation
  (\<open>None\<close> when serialising throws or yields no string).
\<close>

datatype jsvalue =
    VNull
  | VUndefined
  | VString string
  | VNumber real
  | VBoolean bool
  | VObject "string option"

text \<open>
  A \<^typ>\<open>string\<close> stands for a JavaScript string whose code units are below 256:
  \<open>s.length\<close> is \<^term>\<open>length s\<close>, and \<open>Buffer.byteLength(s, 'utf8')\<close> counts one byte
  for a code unit below 128 and two bytes otherwise.
\<close>

definition byteLength :: "string \<Rightarrow> nat" where
  "byteLength s = sum_list (map (\<lambda>c. if (of_char c :: nat) < 128 then 1 else 2) s)"

text \<open>
  A JavaScript \<open>Map\<close> iterates in insertion order, so it is an association list whose
  keys are distinct: \<open>set\<close> on a present key keeps its position, \<open>set\<close> on a new key
  appends, \<open>delete\<close> reports whether the key was there.
\<close>

type_synonym ('k, 'v) jsmap = "('k \<times> 'v) list"

definition Map_get :: "('k, 'v) jsmap \<Rightarrow> 'k \<Rightarrow> 'v option" where
  "Map_get m k = map_of m k"

definition Map_has :: "('k, 'v) jsmap \<Rightarrow> 'k \<Rightarrow> bool" where
  "Map_has m k = (map_of m k \<noteq> None)"

fun Map_set :: "('k, 'v) jsmap \<Rightarrow> 'k \<Rightarrow> 'v \<Rightarrow> ('k, 'v) jsmap" where
  "Map_set [] k v = [(k, v)]"
| "Map_set ((k', v') # m) k v =
     (if k' = k then (k, v) # m else (k', v') # Map_set m k v)"

definition Map_delete :: "('k, 'v) jsmap \<Rightarrow> 'k \<Rightarrow> bool \<times> ('k, 'v) jsmap" where
  "Map_delete m k = (Map_has m k, filter (\<lambda>p. fst p \<noteq> k) m)"

section \<open>CacheEntry\<close>

record CacheEntry =
  key :: string
  val :: jsvalue
  createdAt :: real
  expiresAt :: "real option"
  lastAccessedAt :: real
  accessCount :: nat

text \<open>
  The constructor reads the clock once; \<open>now\<close> is that reading. The option \<open>ttl\<close> is
  \<open>None\<close> when it is \<open>undefined\<close>. The test \<open>options.ttl && options.ttl > 0\<close> is false
  for an undefined and for a zero ttl.
\<close>

definition newCacheEntry :: "real \<Rightarrow> string \<Rightarrow> jsvalue \<Rightarrow> real option \<Rightarrow> CacheEntry" where
  "newCacheEntry now k v ttl =
     \<lparr> key = k, val = v, createdAt = now,
       expiresAt = (case ttl of
                      None \<Rightarrow> None
                    | Some t \<Rightarrow> if t \<noteq> 0 \<and> t > 0 then Some (now + t * 1000) else None),
       lastAccessedAt = now, accessCount = 0 \<rparr>"

definition isExpired :: "real \<Rightarrow> CacheEntry \<Rightarrow> bool" where
  "isExpired now e = (case expiresAt e of None \<Rightarrow> False | Some x \<Rightarrow> now > x)"

definition markAccessed :: "real \<Rightarrow> CacheEntry \<Rightarrow> CacheEntry" where
  "markAccessed now e = e\<lparr> lastAccessedAt := now, accessCount := accessCount e + 1 \<rparr>"

definition getRemainingTTL :: "real \<Rightarrow> CacheEntry \<Rightarrow> real option" where
  "getRemainingTTL now e =
     (case expiresAt e of
        None \<Rightarrow> None
      | Some x \<Rightarrow> Some (of_int \<lceil>max 0 (x - now) / 1000\<rceil>))"

section \<open>Eviction strategies\<close>

datatype EvictionPolicy = NONE | LRU | LFU | FIFO

datatype EvictionStrategy =
    LRUStrategy "string list"
  | LFUStrategy "(string, nat) jsmap"
  | FIFOStrategy "string list"
  | NoEvictionStrategy

fun create :: "EvictionPolicy \<Rightarrow> EvictionStrategy" where
  "create LRU = LRUStrategy []"
| "create LFU = LFUStrategy []"
| "create FIFO = FIFOStrategy []"
| "create NONE = NoEvictionStrategy"

fun strategy_shouldEvict :: "EvictionStrategy \<Rightarrow> nat \<Rightarrow> nat \<Rightarrow> bool" where
  "strategy_shouldEvict NoEvictionStrategy currentSize maxSize = False"
| "strategy_shouldEvict _ currentSize maxSize = (currentSize \<ge> maxSize)"

text \<open>
  The \<open>while\<close> loop of the LRU and FIFO \<open>selectVictim\<close>: return the front key when the
  store has it, otherwise \<open>shift\<close> it away and look again. The list left over is the
  strategy's new bookkeeping.
\<close>

fun skipStale :: "(string, CacheEntry) jsmap \<Rightarrow> string list \<Rightarrow> string option \<times> string list" where
  "skipStale entries [] = (None, [])"
| "skipStale entries (oldestKey # rest) =
     (if Map_has entries oldestKey then (Some oldestKey, oldestKey # rest)
      else skipStale entries rest)"

text \<open>
  The LFU scan starts with \<open>minFreq = Infinity\<close>, \<open>victim = null\<close> and
  \<open>oldestTime = Infinity\<close>; \<open>None\<close> stands for \<open>Infinity\<close> in the first and third
  component. \<open>frequencies.get(key) || 0\<close> reads a missing counter as 0.
\<close>

definition ltInf :: "('a::linorder) \<Rightarrow> 'a option \<Rightarrow> bool" where
  "ltInf x y = (case y of None \<Rightarrow> True | Some b \<Rightarrow> x < b)"

definition freqOf :: "(string, nat) jsmap \<Rightarrow> string \<Rightarrow> nat" where
  "freqOf frequencies k = (case Map_get frequencies k of None \<Rightarrow> 0 | Some n \<Rightarrow> n)"

fun lfuScan :: "(string, nat) jsmap \<Rightarrow> (string, CacheEntry) jsmap
    \<Rightarrow> nat option \<times> string option \<times> real option
    \<Rightarrow> nat option \<times> string option \<times> real option" where
  "lfuScan frequencies [] acc = acc"
| "lfuScan frequencies ((k, entry) # rest) (minFreq, victim, oldestTime) =
     (let freq = freqOf frequencies k in
      if ltInf freq minFreq \<or> (Some freq = minFreq \<and> ltInf (lastAccessedAt entry) oldestTime)
      then lfuScan frequencies rest (Some freq, Some k, Some (lastAccessedAt entry))
      else lfuScan frequencies rest (minFreq, victim, oldestTime))"

fun selectVictim :: "EvictionStrategy \<Rightarrow> (string, CacheEntry) jsmap
    \<Rightarrow> string option \<times> EvictionStrategy" where
  "selectVictim (LRUStrategy accessOrder) entries =
     (case skipStale entries accessOrder of (v, accessOrder') \<Rightarrow> (v, LRUStrategy accessOrder'))"
| "selectVictim (LFUStrategy frequencies) entries =
     (fst (snd (lfuScan frequencies entries (None, None, None))), LFUStrategy frequencies)"
| "selectVictim (FIFOStrategy insertionOrder) entries =
     (case skipStale entries insertionOrder of
        (v, insertionOrder') \<Rightarrow> (v, FIFOStrategy insertionOrder'))"
| "selectVictim NoEvictionStrategy entries = (None, NoEvictionStrategy)"

fun onAccess :: "EvictionStrategy \<Rightarrow> string \<Rightarrow> EvictionStrategy" where
  "onAccess (LRUStrategy accessOrder) k = LRUStrategy (remove1 k accessOrder @ [k])"
| "onAccess (LFUStrategy frequencies) k =
     LFUStrategy (Map_set frequencies k (freqOf frequencies k + 1))"
| "onAccess (FIFOStrategy insertionOrder) k = FIFOStrategy insertionOrder"
| "onAccess NoEvictionStrategy k = NoEvictionStrategy"

fun onInsert :: "EvictionStrategy \<Rightarrow> string \<Rightarrow> EvictionStrategy" where
  "onInsert (LRUStrategy accessOrder) k = LRUStrategy (accessOrder @ [k])"
| "onInsert (LFUStrategy frequencies) k = LFUStrategy (Map_set frequencies k 1)"
| "onInsert (FIFOStrategy insertionOrder) k = FIFOStrategy (insertionOrder @ [k])"
| "onInsert NoEvictionStrategy k = NoEvictionStrategy"

fun onRemove :: "EvictionStrategy \<Rightarrow> string \<Rightarrow> EvictionStrategy" where
  "onRemove (LRUStrategy accessOrder) k = LRUStrategy (remove1 k accessOrder)"
| "onRemove (LFUStrategy frequencies) k = LFUStrategy (snd (Map_delete frequencies k))"
| "onRemove (FIFOStrategy insertionOrder) k = FIFOStrategy (remove1 k insertionOrder)"
| "onRemove NoEvictionStrategy k = NoEvictionStrategy"

section \<open>CacheEngine\<close>

record CacheConfig =
  maxMemoryMB :: nat
  defaultTTL :: real
  evictionPolicy :: EvictionPolicy

definition getMaxMemoryBytes :: "CacheConfig \<Rightarrow> nat" where
  "getMaxMemoryBytes c = maxMemoryMB c * 1024 * 1024"

text \<open>The private \<open>stats\<close> object of the engine.\<close>

record EngineStats =
  hitCount :: nat
  missCount :: nat
  evictionCount :: nat
  expiredCount :: nat
  startTime :: real

record CacheEngine =
  store :: "(string, CacheEntry) jsmap"
  evictionStrategy :: EvictionStrategy
  config :: CacheConfig
  stats :: EngineStats

text \<open>
  \<open>CacheSetOptions\<close>: both fields are optional, \<open>None\<close> is \<open>undefined\<close>. The parameter
  default of \<open>set\<close> is the empty object.
\<close>

record CacheSetOptions =
  ttl :: "real option"
  overwrite :: "bool option"

definition noOptions :: CacheSetOptions where
  "noOptions = \<lparr> ttl = None, overwrite = None \<rparr>"

text \<open>
  The object \<open>getStats\<close> returns. Its counter fields carry the prefix \<open>stat\<close> to keep
  them apart from the fields of the engine's private \<open>stats\<close> object.
\<close>

record CacheStats =
  totalKeys :: nat
  memoryUsageBytes :: nat
  memoryUsageMB :: real
  statHitCount :: nat
  statMissCount :: nat
  hitRate :: real
  statEvictionCount :: nat
  statExpiredCount :: nat
  uptime :: real
  maxMemoryBytes :: nat
  statMaxMemoryMB :: nat

text \<open>
  The engine holds a copy of the configuration and reads the memory ceiling from the
  configuration singleton; the model has the one configuration, which no operation
  changes. Every operation reads the clock; \<open>now\<close> is the reading of \<open>Date.now()\<close>, taken
  to be the same for all the reads one operation makes. An operation returns its result and
  the engine after it. The \<open>catch\<close> branches of \<open>set\<close>, \<open>get\<close> and \<open>delete\<close> have no
  counterpart: nothing in their bodies throws in this model (a failing
  \<open>JSON.stringify\<close> is caught inside \<open>calculateValueSize\<close>).
\<close>

definition newCacheEngine :: "real \<Rightarrow> CacheConfig \<Rightarrow> EvictionPolicy option \<Rightarrow> CacheEngine" where
  "newCacheEngine now c evictionPolicy' =
     \<lparr> store = [],
       evictionStrategy =
         create (case evictionPolicy' of None \<Rightarrow> evictionPolicy c | Some p \<Rightarrow> p),
       config = c,
       stats = \<lparr> hitCount = 0, missCount = 0, evictionCount = 0, expiredCount = 0,
                 startTime = now \<rparr> \<rparr>"

definition isValidKey :: "string \<Rightarrow> bool" where
  "isValidKey k = (length k > 0 \<and> length k \<le> 512)"

fun calculateValueSize :: "jsvalue \<Rightarrow> nat" where
  "calculateValueSize VNull = 8"
| "calculateValueSize VUndefined = 8"
| "calculateValueSize (VString s) = byteLength s"
| "calculateValueSize (VNumber n) = 8"
| "calculateValueSize (VBoolean b) = 1"
| "calculateValueSize (VObject (Some json)) = byteLength json"
| "calculateValueSize (VObject None) = 100"

fun calculateMemoryUsage :: "(string, CacheEntry) jsmap \<Rightarrow> nat" where
  "calculateMemoryUsage [] = 0"
| "calculateMemoryUsage ((k, entry) # rest) =
     byteLength k + calculateValueSize (val entry) + 64 + calculateMemoryUsage rest"

definition shouldEvict :: "CacheEngine \<Rightarrow> bool" where
  "shouldEvict s =
     strategy_shouldEvict (evictionStrategy s) (calculateMemoryUsage (store s))
       (getMaxMemoryBytes (config s))"

definition delete :: "CacheEngine \<Rightarrow> string \<Rightarrow> bool \<times> CacheEngine" where
  "delete s k =
     (case Map_delete (store s) k of
        (existed, store') \<Rightarrow>
          if existed
          then (True, s\<lparr> store := store', evictionStrategy := onRemove (evictionStrategy s) k \<rparr>)
          else (False, s\<lparr> store := store' \<rparr>))"

text \<open>
  A victim that \<open>selectVictim\<close> returns is a key of the store, so the \<open>delete\<close> in the
  eviction loop always removes it; the loop below needs this to terminate.
\<close>

lemma skipStale_has: "skipStale entries ks = (Some k, ks') \<Longrightarrow> Map_has entries k"
  by (induction ks) (auto split: if_splits)

lemma lfuScan_has:
  "lfuScan fs entries acc = (m, Some k, t) \<Longrightarrow> Map_has entries k \<or> fst (snd acc) = Some k"
proof (induction entries arbitrary: acc)
  case Nil
  then show ?case by simp
next
  case (Cons p rest)
  obtain k' e where p: "p = (k', e)" by (cases p)
  obtain mf v ot where acc: "acc = (mf, v, ot)" by (cases acc)
  show ?case using Cons.IH Cons.prems unfolding p acc
    by (fastforce simp: Map_has_def Let_def split: if_splits)
qed

lemma selectVictim_has:
  assumes "selectVictim st entries = (Some k, st')"
  shows "Map_has entries k"
proof (cases st)
  case (LRUStrategy ks)
  with assms show ?thesis by (auto split: prod.splits dest: skipStale_has)
next
  case (LFUStrategy fs)
  obtain m v t where r: "lfuScan fs entries (None, None, None) = (m, v, t)"
    by (cases "lfuScan fs entries (None, None, None)") auto
  with assms LFUStrategy have "v = Some k" by simp
  with r lfuScan_has[of fs entries "(None, None, None)" m k t] show ?thesis by simp
next
  case (FIFOStrategy ks)
  with assms show ?thesis by (auto split: prod.splits dest: skipStale_has)
next
  case NoEvictionStrategy
  with assms show ?thesis by simp
qed

lemma delete_present: "Map_has (store s) k \<Longrightarrow> fst (delete s k) = True"
  by (simp add: delete_def Map_delete_def)

text \<open>
  The \<open>while\<close> loop of \<open>evictEntries\<close>. \<open>!victimKey\<close> holds for \<open>null\<close> and for the
  empty string.
\<close>

function evictLoop :: "CacheEngine \<Rightarrow> nat \<Rightarrow> nat \<Rightarrow> CacheEngine \<times> nat" where
  "evictLoop s maxEvictions evicted =
     (if evicted < maxEvictions \<and> shouldEvict s then
        (case selectVictim (evictionStrategy s) (store s) of
           (victimKey, strategy') \<Rightarrow>
             (case victimKey of
                None \<Rightarrow> (s\<lparr> evictionStrategy := strategy' \<rparr>, evicted)
              | Some k \<Rightarrow>
                  if k = [] then (s\<lparr> evictionStrategy := strategy' \<rparr>, evicted)
                  else
                    (case delete (s\<lparr> evictionStrategy := strategy' \<rparr>) k of
                       (deleted, s') \<Rightarrow>
                         if deleted
                         then evictLoop
                                (s'\<lparr> stats := (stats s')\<lparr> evictionCount := evictionCount (stats s') + 1 \<rparr> \<rparr>)
                                maxEvictions (evicted + 1)
                         else evictLoop s' maxEvictions evicted)))
      else (s, evicted))"
  by pat_completeness auto
termination
proof (relation "measure (\<lambda>(s, maxEvictions, evicted). maxEvictions - evicted)")
  show "wf (measure (\<lambda>(s, maxEvictions, evicted). maxEvictions - evicted))" by simp
next
  fix s s' :: CacheEngine and maxEvictions evicted :: nat
  assume "evicted < maxEvictions \<and> shouldEvict s"
  then show "((s'\<lparr>stats := (stats s')\<lparr>evictionCount := evictionCount (stats s') + 1\<rparr>\<rparr>,
               maxEvictions, evicted + 1), s, maxEvictions, evicted)
       \<in> measure (\<lambda>(s, maxEvictions, evicted). maxEvictions - evicted)"
    by auto
next
  fix s s' :: CacheEngine and maxEvictions evicted :: nat and victimKey :: "string option"
    and strategy' :: EvictionStrategy and k :: string and deleted :: bool
  assume sel: "(victimKey, strategy') = selectVictim (evictionStrategy s) (store s)"
    and v: "victimKey = Some k"
    and d: "(deleted, s') = delete (s\<lparr>evictionStrategy := strategy'\<rparr>) k"
    and nd: "\<not> deleted"
  from sel v have "Map_has (store s) k"
    using selectVictim_has[of "evictionStrategy s" "store s" k strategy'] by simp
  then have "fst (delete (s\<lparr>evictionStrategy := strategy'\<rparr>) k) = True"
    using delete_present[of "s\<lparr>evictionStrategy := strategy'\<rparr>" k] by simp
  with d nd have False by (metis fst_conv)
  then show "((s', maxEvictions, evicted), s, maxEvictions, evicted)
       \<in> measure (\<lambda>(s, maxEvictions, evicted). maxEvictions - evicted)" ..
qed

declare evictLoop.simps [simp del]

text \<open>
  The double nearest to a real, ties going to the even significand: the result of one
  correctly rounded IEEE operation whose exact result is the argument. A double has a
  significand of 53 bits, so between \<open>2 ^ e\<close> and \<open>2 ^ (e + 1)\<close> the doubles are the multiples
  of \<open>2 ^ (e - 52)\<close>. \<open>binade\<close> finds that \<open>e\<close> by halving and doubling, and \<open>pow2\<close> is the
  power of two with a whole exponent of either sign. Overflow and subnormal numbers are
  not modelled: \<open>getStats\<close>, the only user, rounds zero and numbers between \<open>2 ^ -53\<close> and
  \<open>2 ^ 53\<close>.
\<close>

function binade :: "real \<Rightarrow> int" where
  "binade x =
     (if x \<le> 0 then 0
      else if 2 \<le> x then binade (x / 2) + 1
      else if x < 1 then binade (x * 2) - 1
      else 0)"
  by pat_completeness auto
termination
proof (relation "measure (\<lambda>x. nat \<lceil>\<bar>log 2 x\<bar>\<rceil> + (if x < 1 then 1 else 0))")
  show "wf (measure (\<lambda>x. nat \<lceil>\<bar>log 2 x\<bar>\<rceil> + (if x < 1 then 1 else 0)))" by simp
next
  fix x :: real
  assume "\<not> x \<le> 0" and big: "2 \<le> x"
  then have xp: "0 < x" by simp
  have l: "log 2 (x / 2) = log 2 x - 1" using xp by (simp add: log_divide)
  have l1: "1 \<le> log 2 x" using big xp by (simp add: le_log_iff)
  have "\<lceil>log 2 x - 1\<rceil> = \<lceil>log 2 x\<rceil> - 1" by simp
  moreover have "1 \<le> \<lceil>log 2 x\<rceil>" using l1 by linarith
  ultimately have "nat \<lceil>\<bar>log 2 (x / 2)\<bar>\<rceil> < nat \<lceil>\<bar>log 2 x\<bar>\<rceil>"
    using l l1 by simp
  then show "(x / 2, x) \<in> measure (\<lambda>x. nat \<lceil>\<bar>log 2 x\<bar>\<rceil> + (if x < 1 then 1 else 0))"
    using big by simp
next
  fix x :: real
  assume "\<not> x \<le> 0" and "\<not> 2 \<le> x" and small: "x < 1"
  then have xp: "0 < x" by simp
  have l: "log 2 (x * 2) = log 2 x + 1" using xp by (simp add: log_mult)
  have neg: "log 2 x < 0" using small xp by simp
  show "(x * 2, x) \<in> measure (\<lambda>x. nat \<lceil>\<bar>log 2 x\<bar>\<rceil> + (if x < 1 then 1 else 0))"
  proof (cases "x * 2 < 1")
    case True
    then have "log 2 (x * 2) < 0" using xp by simp
    then have l2: "log 2 x < - 1" using l by simp
    have "\<lceil>- log 2 x - 1\<rceil> = \<lceil>- log 2 x\<rceil> - 1" by simp
    moreover have "2 \<le> \<lceil>- log 2 x\<rceil>" using l2 by linarith
    ultimately have "nat \<lceil>\<bar>log 2 (x * 2)\<bar>\<rceil> < nat \<lceil>\<bar>log 2 x\<bar>\<rceil>"
      using l l2 by simp
    then show ?thesis using True small by simp
  next
    case False
    then have "0 \<le> log 2 (x * 2)" using xp by simp
    then have l2: "- 1 \<le> log 2 x" using l by simp
    have c: "\<lceil>log 2 x\<rceil> \<le> 0" using neg by linarith
    have "\<bar>log 2 (x * 2)\<bar> = log 2 x + 1" using l l2 by simp
    then have d: "\<lceil>\<bar>log 2 (x * 2)\<bar>\<rceil> = \<lceil>log 2 x\<rceil> + 1" by simp
    from c have "nat (\<lceil>log 2 x\<rceil> + 1) \<le> 1" by arith
    then have a: "nat \<lceil>\<bar>log 2 (x * 2)\<bar>\<rceil> \<le> 1" by (simp only: d)
    have e: "1 \<le> \<lceil>- log 2 x\<rceil>" using neg by linarith
    have "\<bar>log 2 x\<bar> = - log 2 x" using neg by simp
    then have f: "\<lceil>\<bar>log 2 x\<bar>\<rceil> = \<lceil>- log 2 x\<rceil>" by (simp only:)
    from e have "1 \<le> nat \<lceil>- log 2 x\<rceil>" by arith
    then have b: "1 \<le> nat \<lceil>\<bar>log 2 x\<bar>\<rceil>" by (simp only: f)
    define A where "A = nat \<lceil>\<bar>log 2 (x * 2)\<bar>\<rceil>"
    define B where "B = nat \<lceil>\<bar>log 2 x\<bar>\<rceil>"
    from a b have "A + 0 < B + 1" unfolding A_def B_def by linarith
    then show ?thesis using False small by (simp add: A_def B_def)
  qed
qed

declare binade.simps [simp del]

definition pow2 :: "int \<Rightarrow> real" where
  "pow2 e = (if 0 \<le> e then 2 ^ nat e else 1 / 2 ^ nat (- e))"

definition roundTiesToEven :: "real \<Rightarrow> int" where
  "roundTiesToEven x =
     (let f = \<lfloor>x\<rfloor> in
      if x - of_int f < 1 / 2 \<or> (x - of_int f = 1 / 2 \<and> even f) then f else f + 1)"

definition float64 :: "real \<Rightarrow> real" where
  "float64 x =
     (if x = 0 then 0
      else let ulp = pow2 (binade \<bar>x\<bar> - 52)
           in of_int (roundTiesToEven (x / ulp)) * ulp)"

text \<open>\<open>Math.ceil\<close> and \<open>Math.round\<close> (which rounds a half upwards).\<close>

definition Math_ceil :: "real \<Rightarrow> int" where
  "Math_ceil x = \<lceil>x\<rceil>"

definition Math_round :: "real \<Rightarrow> int" where
  "Math_round x = \<lfloor>x + 1 / 2\<rfloor>"

definition evictEntries :: "CacheEngine \<Rightarrow> bool \<times> CacheEngine" where
  "evictEntries s =
     (case evictLoop s (nat (Math_ceil (real (length (store s)) * (1 / 10)))) 0 of
        (s', evicted) \<Rightarrow> (evicted > 0 \<or> \<not> shouldEvict s', s'))"

definition set_key :: "CacheEngine \<Rightarrow> real \<Rightarrow> string \<Rightarrow> jsvalue \<Rightarrow> CacheSetOptions
    \<Rightarrow> bool \<times> CacheEngine" where
  "set_key s now k v options =
     (if \<not> isValidKey k then (False, s)
      else
        let existingEntry = Map_get (store s) k in
        if existingEntry \<noteq> None \<and> overwrite options \<noteq> Some True then (False, s)
        else
          let s1 = (if existingEntry \<noteq> None
                    then s\<lparr> evictionStrategy := onRemove (evictionStrategy s) k \<rparr> else s);
              ttl' = (case ttl options of Some t \<Rightarrow> t | None \<Rightarrow> defaultTTL (config s));
              entry = newCacheEntry now k v (if ttl' > 0 then Some ttl' else None);
              insert' = (\<lambda>s2. (True, s2\<lparr> store := Map_set (store s2) k entry,
                                           evictionStrategy := onInsert (evictionStrategy s2) k \<rparr>))
          in
            if shouldEvict s1 then
              (case evictEntries s1 of
                 (freed, s2) \<Rightarrow> if \<not> freed then (False, s2) else insert' s2)
            else insert' s1)"

text \<open>
  \<open>get\<close> returns the value or \<open>null\<close>. \<open>markAccessed\<close> mutates the entry object that
  the store holds, which is a \<open>Map_set\<close> at a present key here.
\<close>

definition get :: "CacheEngine \<Rightarrow> real \<Rightarrow> string \<Rightarrow> jsvalue \<times> CacheEngine" where
  "get s now k =
     (case Map_get (store s) k of
        None \<Rightarrow> (VNull, s\<lparr> stats := (stats s)\<lparr> missCount := missCount (stats s) + 1 \<rparr> \<rparr>)
      | Some entry \<Rightarrow>
          if isExpired now entry then
            (case delete s k of
               (existed, s1) \<Rightarrow>
                 (VNull, s1\<lparr> stats := (stats s1)\<lparr> missCount := missCount (stats s1) + 1,
                                                   expiredCount := expiredCount (stats s1) + 1 \<rparr> \<rparr>))
          else
            let entry' = markAccessed now entry in
            (val entry',
             s\<lparr> store := Map_set (store s) k entry',
                evictionStrategy := onAccess (evictionStrategy s) k,
                stats := (stats s)\<lparr> hitCount := hitCount (stats s) + 1 \<rparr> \<rparr>))"

definition has :: "CacheEngine \<Rightarrow> real \<Rightarrow> string \<Rightarrow> bool \<times> CacheEngine" where
  "has s now k =
     (case Map_get (store s) k of
        None \<Rightarrow> (False, s)
      | Some entry \<Rightarrow>
          if isExpired now entry then (case delete s k of (existed, s1) \<Rightarrow> (False, s1))
          else (True, s))"

definition keys :: "CacheEngine \<Rightarrow> real \<Rightarrow> string list" where
  "keys s now = map fst (filter (\<lambda>(k, entry). \<not> isExpired now entry) (store s))"

definition clear :: "CacheEngine \<Rightarrow> CacheEngine" where
  "clear s = s\<lparr> store := [] \<rparr>"

definition size_store :: "CacheEngine \<Rightarrow> nat" where
  "size_store s = length (store s)"

definition cleanupExpired :: "CacheEngine \<Rightarrow> real \<Rightarrow> nat \<times> CacheEngine" where
  "cleanupExpired s now =
     (let keysToDelete = map fst (filter (\<lambda>(k, entry). isExpired now entry) (store s));
          s1 = fold (\<lambda>k s'. snd (delete s' k)) keysToDelete s;
          expiredCount' = length keysToDelete
      in if expiredCount' > 0
         then (expiredCount',
               s1\<lparr> stats := (stats s1)\<lparr> expiredCount := expiredCount (stats s1) + expiredCount' \<rparr> \<rparr>)
         else (expiredCount', s1))"

text \<open>
  \<open>getStats\<close> computes \<open>hitRate\<close> and \<open>memoryUsageMB\<close> in doubles: every division and
  multiplication is rounded by \<open>float64\<close>. The counters and the byte count are whole
  numbers, which are doubles themselves as long as they are below \<open>2 ^ 53\<close>;
  \<open>1024 * 1024\<close> is exact, and \<open>Math.round\<close> of a double is a whole number.
\<close>

definition getStats :: "CacheEngine \<Rightarrow> real \<Rightarrow> CacheStats \<times> CacheEngine" where
  "getStats s now =
     (let memoryUsageBytes' = calculateMemoryUsage (store s);
          totalOperations = hitCount (stats s) + missCount (stats s);
          hitRate' = (if totalOperations > 0
                      then float64 (real (hitCount (stats s)) / real totalOperations) else 0)
      in (\<lparr> totalKeys = length (store s),
            memoryUsageBytes = memoryUsageBytes',
            memoryUsageMB =
              float64 (real_of_int (Math_round
                (float64 (float64 (real memoryUsageBytes' / (1024 * 1024)) * 100))) / 100),
            statHitCount = hitCount (stats s),
            statMissCount = missCount (stats s),
            hitRate = float64 (real_of_int (Math_round (float64 (hitRate' * 10000))) / 100),
            statEvictionCount = evictionCount (stats s),
            statExpiredCount = expiredCount (stats s),
            uptime = now - startTime (stats s),
            maxMemoryBytes = getMaxMemoryBytes (config s),
            statMaxMemoryMB = maxMemoryMB (config s) \<rparr>,
          s))"

definition updateTTL :: "CacheEngine \<Rightarrow> real \<Rightarrow> string \<Rightarrow> real \<Rightarrow> bool \<times> CacheEngine" where
  "updateTTL s now k ttl' =
     (case Map_get (store s) k of
        None \<Rightarrow> (False, s)
      | Some entry \<Rightarrow>
          if isExpired now entry then (False, s)
          else (True, s\<lparr> store := Map_set (store s) k
                                     (newCacheEntry now (key entry) (val entry) (Some ttl')) \<rparr>))"

text \<open>
  \<open>increment\<close> returns the new number or \<open>null\<close> (\<open>None\<close>); the caller passes 1 for an
  omitted \<open>delta\<close>. \<open>entry.getRemainingTTL() || undefined\<close> is \<open>undefined\<close> for \<open>null\<close>
  and for 0.
\<close>

definition increment :: "CacheEngine \<Rightarrow> real \<Rightarrow> string \<Rightarrow> real \<Rightarrow> real option \<times> CacheEngine" where
  "increment s now k delta =
     (case Map_get (store s) k of
        None \<Rightarrow> (None, s)
      | Some entry \<Rightarrow>
          if isExpired now entry then (None, s)
          else
            (case val entry of
               VNumber currentValue \<Rightarrow>
                 let newValue = currentValue + delta;
                     newEntry = newCacheEntry now k (VNumber newValue)
                       (case getRemainingTTL now entry of
                          None \<Rightarrow> None
                        | Some r \<Rightarrow> if r = 0 then None else Some r)
                 in (Some newValue,
                     s\<lparr> store := Map_set (store s) k newEntry,
                        evictionStrategy := onAccess (evictionStrategy s) k \<rparr>)
             | _ \<Rightarrow> (None, s)))"

section \<open>Auxiliary definitions: the scan invariant, bookkeeping keys, concrete engines\<close>


text \<open>
  The configuration the source builds when no environment variable is set, and one with
  the smallest memory ceiling that \<open>parseInt\<close> and \<open>validateConfig\<close> allow (1 MB). A
  string of 1048576 letters fills that ceiling by itself.
\<close>

definition defaultConfig :: CacheConfig where
  "defaultConfig = \<lparr> maxMemoryMB = 100, defaultTTL = 3600, evictionPolicy = LRU \<rparr>"

definition smallConfig :: CacheConfig where
  "smallConfig = \<lparr> maxMemoryMB = 1, defaultTTL = 3600, evictionPolicy = LRU \<rparr>"

definition bigValue :: jsvalue where
  "bigValue = VString (replicate 1048576 (CHR ''a''))"

text \<open>
  The engine of the unit test \<open>should track hit and miss counts\<close>: one \<open>set\<close>, two hits and
  one miss.
\<close>

definition hitsAndMisses :: CacheEngine where
  "hitsAndMisses =
     snd (get (snd (get (snd (get
       (snd (set_key (newCacheEngine 0 defaultConfig (Some LRU)) 1 ''key1'' (VString ''value1'')
          noOptions))
       2 ''key1'')) 3 ''key1'')) 4 ''nonexistent'')"

text \<open>The keys a strategy holds in its auxiliary structure.\<close>

fun bookkeeping :: "EvictionStrategy \<Rightarrow> string list" where
  "bookkeeping (LRUStrategy accessOrder) = accessOrder"
| "bookkeeping (LFUStrategy frequencies) = map fst frequencies"
| "bookkeeping (FIFOStrategy insertionOrder) = insertionOrder"
| "bookkeeping NoEvictionStrategy = []"

text \<open>An engine whose only entry expires at time 1000.\<close>

definition expiring :: CacheEngine where
  "expiring = snd (set_key (newCacheEngine 0 defaultConfig (Some LRU)) 0 ''key1'' (VNumber 10)
                     \<lparr> ttl = Some 1, overwrite = None \<rparr>)"

text \<open>
  An engine with a 1 MB ceiling whose only entry fills the ceiling, and the engine left by
  a \<open>set\<close> that overwrites that entry: the key has been unregistered from the LRU order,
  no victim can be selected, and the \<open>set\<close> has returned false.
\<close>

definition full :: CacheEngine where
  "full = snd (set_key (newCacheEngine 0 smallConfig None) 1 ''k'' bigValue noOptions)"

definition wedged :: CacheEngine where
  "wedged = snd (set_key full 2 ''k'' (VNumber 1) \<lparr> ttl = None, overwrite = Some True \<rparr>)"

text \<open>The engine of the unit test \<open>should overwrite by default\<close> after its first \<open>set\<close>.\<close>

definition firstSet :: CacheEngine where
  "firstSet = snd (set_key (newCacheEngine 0 defaultConfig (Some LRU)) 1 ''key1''
                     (VString ''value1'') noOptions)"

text \<open>
  What the bookkeeping left by \<open>clear\<close> does to a later eviction: under FIFO, after the
  keys \<open>a\<close> and \<open>b\<close> are set, the cache is cleared and \<open>b\<close> and then \<open>a\<close> are set again, the
  victim is \<open>a\<close>, the key inserted last.
\<close>

definition reinserted :: CacheEngine where
  "reinserted =
     snd (set_key (snd (set_key (clear
       (snd (set_key (snd (set_key (newCacheEngine 0 defaultConfig (Some FIFO))
          1 ''a'' (VNumber 1) noOptions)) 2 ''b'' (VNumber 2) noOptions)))
       4 ''b'' (VNumber 3) noOptions)) 5 ''a'' (VNumber 4) noOptions)"

text \<open>
  The value the specification gives for \<open>hitRate\<close>, in exact arithmetic:
  \<open>hits / (hits + misses) \<times> 100\<close> rounded to two decimals, a half rounding upwards as
  \<open>Math.round\<close> does.
\<close>

definition percentRoundedToTwoDecimals :: "nat \<Rightarrow> nat \<Rightarrow> real" where
  "percentRoundedToTwoDecimals hits misses =
     real_of_int \<lfloor>real hits / real (hits + misses) * 100 * 100 + 1 / 2\<rfloor> / 100"

text \<open>
  \<open>get\<close> called \<open>n\<close> times on one key, and two engines reached that way from the engine
  of the unit test: 57 hits and 743 misses, and 571460282383 hits and 330679243046
  misses.
\<close>

definition repeatGet :: "nat \<Rightarrow> real \<Rightarrow> string \<Rightarrow> CacheEngine \<Rightarrow> CacheEngine" where
  "repeatGet n now k = (\<lambda>s. snd (get s now k)) ^^ n"

definition tied :: CacheEngine where
  "tied = repeatGet 743 3 ''nonexistent'' (repeatGet 57 2 ''key1'' firstSet)"

definition flipped :: CacheEngine where
  "flipped = repeatGet 330679243046 3 ''nonexistent'' (repeatGet 571460282383 2 ''key1'' firstSet)"

text \<open>
  The engine \<^term>\<open>expiring\<close> cleared and its key set again: \<open>clear\<close> left the key in the
  LRU access order, so the key is in it twice.
\<close>

definition reregistered :: CacheEngine where
  "reregistered = snd (set_key (clear expiring) 0 ''key1'' (VNumber 10)
                         \<lparr> ttl = Some 1, overwrite = None \<rparr>)"

section \<open>Facts about the Map operations\<close>

lemma Map_get_Map_set_same [simp]: "Map_get (Map_set m k v) k = Some v"
  by (induction m) (auto simp: Map_get_def)

lemma Map_get_Map_set_other [simp]: "k' \<noteq> k \<Longrightarrow> Map_get (Map_set m k v) k' = Map_get m k'"
  by (induction m) (auto simp: Map_get_def)

lemma Map_get_Map_delete_same [simp]: "Map_get (snd (Map_delete m k)) k = None"
  by (induction m) (auto simp: Map_get_def Map_delete_def)

lemma Map_get_Map_delete_other [simp]:
  "k' \<noteq> k \<Longrightarrow> Map_get (snd (Map_delete m k)) k' = Map_get m k'"
  by (induction m) (auto simp: Map_get_def Map_delete_def)

lemma Map_has_iff_keys: "Map_has m k \<longleftrightarrow> k \<in> fst ` set m"
  by (simp add: Map_has_def map_of_eq_None_iff)

lemma Map_has_iff_get: "Map_has m k \<longleftrightarrow> Map_get m k \<noteq> None"
  by (simp add: Map_has_def Map_get_def)

section \<open>Victim selection\<close>

text \<open>
  C9. For every eviction policy and every store, a key that \<open>selectVictim\<close> returns is a
  key of the store at the time of the selection: a stale bookkeeping key, whose entry
  the store no longer has, is never the victim.
\<close>

theorem selectVictim_returns_store_key:
  "selectVictim st entries = (Some k, st') \<Longrightarrow>
     k \<in> fst ` set entries \<and> Map_get entries k \<noteq> None"
proof -
  assume "selectVictim st entries = (Some k, st')"
  then have "Map_has entries k" by (rule selectVictim_has)
  then show ?thesis using Map_has_iff_keys[of entries k] Map_has_iff_get[of entries k] by blast
qed

theorem selectVictim_returns_store_key_witness:
  "selectVictim (LRUStrategy [''a'', ''b'']) [(''b'', newCacheEntry 0 ''b'' VNull None)]
     = (Some ''b'', LRUStrategy [''b''])
   \<and> ''b'' \<in> fst ` set [(''b'', newCacheEntry 0 ''b'' VNull None)]
   \<and> Map_get [(''b'', newCacheEntry 0 ''b'' VNull None)] ''b'' \<noteq> None"
proof -
  have sel: "selectVictim (LRUStrategy [''a'', ''b'']) [(''b'', newCacheEntry 0 ''b'' VNull None)]
     = (Some ''b'', LRUStrategy [''b''])"
    by (simp add: Map_has_def)
  from selectVictim_returns_store_key[OF sel] sel show ?thesis by simp
qed


section \<open>The LFU policy\<close>




lemma freqOf_onInsert: "freqOf (Map_set fs k 1) k = 1" by (simp add: freqOf_def)



section \<open>Evaluation\<close>

lemma byteLength_Nil [simp]: "byteLength [] = 0"
  by (simp add: byteLength_def)

lemma byteLength_Cons [simp]:
  "byteLength (c # s) = (if (of_char c :: nat) < 128 then 1 else 2) + byteLength s"
  by (simp add: byteLength_def)

lemma byteLength_replicate_a [simp]: "byteLength (replicate n (CHR ''a'')) = n"
  by (induction n) simp_all

lemmas engine_defs =
  set_key_def get_def has_def delete_def updateTTL_def increment_def clear_def keys_def
  getStats_def shouldEvict_def evictEntries_def isValidKey_def newCacheEngine_def
  newCacheEntry_def isExpired_def markAccessed_def getRemainingTTL_def getMaxMemoryBytes_def
  Map_get_def Map_has_def Map_delete_def noOptions_def Math_round_def Math_ceil_def Let_def

lemma hitsAndMisses_stats:
  "stats hitsAndMisses =
     \<lparr> hitCount = 2, missCount = 1, evictionCount = 0, expiredCount = 0, startTime = 0 \<rparr>"
  by (simp add: hitsAndMisses_def engine_defs defaultConfig_def)

section \<open>Lookups of an expired entry\<close>

lemma expiring_eq:
  "expiring =
     \<lparr> store = [(''key1'', \<lparr> key = ''key1'', val = VNumber 10, createdAt = 0,
                            expiresAt = Some 1000, lastAccessedAt = 0, accessCount = 0 \<rparr>)],
       evictionStrategy = LRUStrategy [''key1''], config = defaultConfig,
       stats = \<lparr> hitCount = 0, missCount = 0, evictionCount = 0, expiredCount = 0,
                 startTime = 0 \<rparr> \<rparr>"
  by (simp add: expiring_def engine_defs defaultConfig_def)

lemma reregistered_eq:
  "reregistered =
     \<lparr> store = [(''key1'', \<lparr> key = ''key1'', val = VNumber 10, createdAt = 0,
                            expiresAt = Some 1000, lastAccessedAt = 0, accessCount = 0 \<rparr>)],
       evictionStrategy = LRUStrategy [''key1'', ''key1''], config = defaultConfig,
       stats = \<lparr> hitCount = 0, missCount = 0, evictionCount = 0, expiredCount = 0,
                 startTime = 0 \<rparr> \<rparr>"
  by (simp add: reregistered_def expiring_eq engine_defs defaultConfig_def)

lemma count_list_remove1_same: "count_list (remove1 k xs) k = count_list xs k - 1"
  by (induction xs) auto

lemma in_set_iff_count: "k \<in> set ys \<longleftrightarrow> 0 < count_list ys k"
  by (induction ys) auto

lemma in_remove1_iff: "k \<in> set (remove1 k xs) \<longleftrightarrow> 1 < count_list xs k"
proof -
  have "k \<in> set (remove1 k xs) \<longleftrightarrow> 0 < count_list xs k - 1"
    using in_set_iff_count[of k "remove1 k xs"] by (simp only: count_list_remove1_same)
  also have "\<dots> \<longleftrightarrow> 1 < count_list xs k" by arith
  finally show ?thesis .
qed

lemma bookkeeping_onRemove:
  "bookkeeping (onRemove st k) =
     (case st of
        LFUStrategy frequencies \<Rightarrow> removeAll k (map fst frequencies)
      | _ \<Rightarrow> remove1 k (bookkeeping st))"
proof (cases st)
  case (LFUStrategy fs)
  have "map fst (filter (\<lambda>p. fst p \<noteq> k) fs) = removeAll k (map fst fs)"
    by (induction fs) auto
  with LFUStrategy show ?thesis by (simp add: Map_delete_def)
qed simp_all

lemma registered_after_onRemove:
  "k \<in> set (bookkeeping (onRemove st k)) \<longleftrightarrow>
     (case st of
        LFUStrategy frequencies \<Rightarrow> False
      | _ \<Rightarrow> 1 < count_list (bookkeeping st) k)"
  unfolding bookkeeping_onRemove by (cases st) (simp_all add: in_remove1_iff)

lemma delete_present_eq:
  "Map_get (store s) k = Some entry \<Longrightarrow>
   delete s k = (True, s\<lparr> store := snd (Map_delete (store s) k),
                          evictionStrategy := onRemove (evictionStrategy s) k \<rparr>)"
  by (simp add: delete_def Map_delete_def Map_has_def Map_get_def)




text \<open>
  C4, as amended. On a key whose entry is present but expired: \<open>get\<close> returns \<open>null\<close>
  after deleting the entry from the store and calling \<open>onRemove\<close> for the key;
  \<open>updateTTL\<close> returns false and \<open>increment\<close> returns \<open>null\<close>, both leaving the engine
  as it was, the expired entry still in the store; \<open>delete\<close> removes the entry from the
  store, calls \<open>onRemove\<close> and returns true, as it does for any present key. \<open>onRemove\<close>
  takes one registration of the key out of the bookkeeping: the first occurrence of the
  key in the LRU access order or the FIFO insertion order, or the key's LFU counter; the
  key is still in the bookkeeping afterwards exactly when it was in the LRU or FIFO order
  more than once.
\<close>

theorem expired_lookup_effects:
  assumes "Map_get (store s) k = Some entry" and "isExpired now entry"
  shows "fst (get s now k) = VNull
    \<and> Map_get (store (snd (get s now k))) k = None
    \<and> evictionStrategy (snd (get s now k)) = onRemove (evictionStrategy s) k
    \<and> updateTTL s now k ttl' = (False, s)
    \<and> increment s now k delta = (None, s)
    \<and> delete s k = (True, s\<lparr> store := snd (Map_delete (store s) k),
                             evictionStrategy := onRemove (evictionStrategy s) k \<rparr>)
    \<and> bookkeeping (evictionStrategy (snd (get s now k))) =
        (case evictionStrategy s of
           LFUStrategy frequencies \<Rightarrow> removeAll k (map fst frequencies)
         | _ \<Rightarrow> remove1 k (bookkeeping (evictionStrategy s)))
    \<and> bookkeeping (evictionStrategy (snd (delete s k))) =
        bookkeeping (evictionStrategy (snd (get s now k)))
    \<and> (k \<in> set (bookkeeping (evictionStrategy (snd (get s now k)))) \<longleftrightarrow>
        (case evictionStrategy s of
           LFUStrategy frequencies \<Rightarrow> False
         | _ \<Rightarrow> 1 < count_list (bookkeeping (evictionStrategy s)) k))"
  using assms bookkeeping_onRemove[of "evictionStrategy s" k]
    registered_after_onRemove[of k "evictionStrategy s"]
  by (simp add: get_def updateTTL_def increment_def delete_present_eq)

theorem expired_lookup_effects_witness:
  "Map_get (store reregistered) ''key1'' \<noteq> None
   \<and> isExpired 2000 (the (Map_get (store reregistered) ''key1''))
   \<and> fst (get reregistered 2000 ''key1'') = VNull
   \<and> store (snd (get reregistered 2000 ''key1'')) = []
   \<and> bookkeeping (evictionStrategy (snd (get reregistered 2000 ''key1''))) = [''key1'']
   \<and> updateTTL reregistered 2000 ''key1'' 60 = (False, reregistered)
   \<and> increment reregistered 2000 ''key1'' 5 = (None, reregistered)
   \<and> delete reregistered ''key1''
       = (True, reregistered\<lparr> store := [], evictionStrategy := LRUStrategy [''key1''] \<rparr>)
   \<and> fst (get expiring 2000 ''key1'') = VNull
   \<and> bookkeeping (evictionStrategy (snd (get expiring 2000 ''key1''))) = []"
proof -
  have e: "Map_get (store reregistered) ''key1'' =
      Some \<lparr> key = ''key1'', val = VNumber 10, createdAt = 0,
                            expiresAt = Some 1000, lastAccessedAt = 0, accessCount = 0 \<rparr>"
    by (simp add: reregistered_eq Map_get_def)
  have x: "isExpired 2000 \<lparr> key = ''key1'', val = VNumber 10, createdAt = 0,
                            expiresAt = Some 1000, lastAccessedAt = 0, accessCount = 0 \<rparr>"
    by (simp add: isExpired_def)
  from expired_lookup_effects[OF e x, of 60 5] e x show ?thesis
    by (simp add: reregistered_eq expiring_eq engine_defs)
qed

text \<open>
  C4 as stated fails: on the expired entry of \<^term>\<open>expiring\<close>, \<open>updateTTL\<close> and
  \<open>increment\<close> leave the entry in the store and in the bookkeeping, and \<open>delete\<close> returns
  true, not the failure value.
\<close>

theorem expired_updateTTL_keeps_entry:
  "Map_get (store expiring) ''key1'' \<noteq> None
   \<and> isExpired 2000 (the (Map_get (store expiring) ''key1''))
   \<and> fst (updateTTL expiring 2000 ''key1'' 60) = False
   \<and> Map_has (store (snd (updateTTL expiring 2000 ''key1'' 60))) ''key1''
   \<and> evictionStrategy (snd (updateTTL expiring 2000 ''key1'' 60)) = LRUStrategy [''key1'']
   \<and> fst (increment expiring 2000 ''key1'' 5) = None
   \<and> Map_has (store (snd (increment expiring 2000 ''key1'' 5))) ''key1''
   \<and> fst (delete expiring ''key1'') = True"
  by (simp add: expiring_eq engine_defs)



section \<open>Eviction on set\<close>

lemma full_eq:
  "full =
     \<lparr> store = [(''k'', \<lparr> key = ''k'', val = bigValue, createdAt = 1,
                         expiresAt = Some 3600001, lastAccessedAt = 1, accessCount = 0 \<rparr>)],
       evictionStrategy = LRUStrategy [''k''], config = smallConfig,
       stats = \<lparr> hitCount = 0, missCount = 0, evictionCount = 0, expiredCount = 0,
                 startTime = 0 \<rparr> \<rparr>"
  by (simp add: full_def engine_defs smallConfig_def)

lemma set_full_overwrite:
  "set_key full 2 ''k'' (VNumber 1) \<lparr> ttl = None, overwrite = Some True \<rparr>
     = (False, full\<lparr> evictionStrategy := LRUStrategy [] \<rparr>)"
  unfolding full_eq by (simp add: engine_defs smallConfig_def bigValue_def evictLoop.simps)

lemma wedged_eq: "wedged = full\<lparr> evictionStrategy := LRUStrategy [] \<rparr>"
  by (simp add: wedged_def set_full_overwrite)

lemma selectVictim_keeps_policy:
  "strategy_shouldEvict (snd (selectVictim st entries)) a b = strategy_shouldEvict st a b"
  by (cases st) (auto split: prod.splits)

lemma evictLoop_no_victim:
  assumes "fst (selectVictim (evictionStrategy s) (store s)) = None"
  shows "snd (evictLoop s m 0) = 0 \<and> store (fst (evictLoop s m 0)) = store s
     \<and> shouldEvict (fst (evictLoop s m 0)) = shouldEvict s"
proof (cases "0 < m \<and> shouldEvict s")
  case True
  obtain st' where sv: "selectVictim (evictionStrategy s) (store s) = (None, st')"
    using assms by (cases "selectVictim (evictionStrategy s) (store s)") auto
  have "evictLoop s m 0 = (s\<lparr> evictionStrategy := st' \<rparr>, 0)"
    using True sv by (subst evictLoop.simps) simp
  moreover have "strategy_shouldEvict st' a b = strategy_shouldEvict (evictionStrategy s) a b" for a b
    using selectVictim_keeps_policy[of "evictionStrategy s" "store s" a b] sv by simp
  ultimately show ?thesis by (simp add: shouldEvict_def)
next
  case False
  then have "evictLoop s m 0 = (s, 0)" by (subst evictLoop.simps) auto
  then show ?thesis by simp
qed

lemma evictEntries_no_victim:
  assumes "fst (selectVictim (evictionStrategy s) (store s)) = None" and "shouldEvict s"
  shows "fst (evictEntries s) = False \<and> store (snd (evictEntries s)) = store s
     \<and> shouldEvict (snd (evictEntries s))"
  using evictLoop_no_victim[OF assms(1), of "nat (Math_ceil (real (length (store s)) * (1 / 10)))"] assms(2)
  by (auto simp: evictEntries_def split: prod.splits)

lemma set_key_evicting:
  assumes "isValidKey k"
    and "Map_get (store s) k = None \<or> overwrite options = Some True"
    and "s1 = (if Map_get (store s) k \<noteq> None
               then s\<lparr> evictionStrategy := onRemove (evictionStrategy s) k \<rparr> else s)"
    and "shouldEvict s1"
  shows "set_key s now k v options =
     (case evictEntries s1 of
        (freed, s2) \<Rightarrow>
          if \<not> freed then (False, s2)
          else (True, s2\<lparr> store := Map_set (store s2) k
                   (newCacheEntry now k v
                      (if (case ttl options of Some t \<Rightarrow> t | None \<Rightarrow> defaultTTL (config s)) > 0
                       then Some (case ttl options of Some t \<Rightarrow> t | None \<Rightarrow> defaultTTL (config s))
                       else None)),
                 evictionStrategy := onInsert (evictionStrategy s2) k \<rparr>))"
proof (cases "Map_get (store s) k")
  case None
  with assms(3) have "s1 = s" by simp
  with assms(1,4) None show ?thesis by (simp add: set_key_def Let_def)
next
  case (Some e)
  with assms(3) have s1: "s\<lparr> evictionStrategy := onRemove (evictionStrategy s) k \<rparr> = s1" by simp
  from Some assms(2) have "overwrite options = Some True" by simp
  with assms(1,4) Some show ?thesis by (simp add: set_key_def Let_def s1)
qed

text \<open>
  C1, as amended. Let \<open>set\<close> on a valid key pass the overwrite check and find the ceiling
  breached (\<open>shouldEvict\<close>, after the old entry, if any, was unregistered). If the strategy
  then produces no victim, so that nothing is evicted, \<open>set\<close> returns false and does not
  insert the entry: the store is as before and the ceiling still breached; eviction
  exhaustion is reported to the caller as a failed \<open>set\<close>. If the loop evicted at least
  one entry, \<open>set\<close> inserts the entry and returns true, whether or not the ceiling is still
  breached.
\<close>

theorem set_eviction_outcome:
  assumes "isValidKey k"
    and "Map_get (store s) k = None \<or> overwrite options = Some True"
    and "s1 = (if Map_get (store s) k \<noteq> None
               then s\<lparr> evictionStrategy := onRemove (evictionStrategy s) k \<rparr> else s)"
    and "shouldEvict s1"
  shows "(fst (selectVictim (evictionStrategy s1) (store s1)) = None \<longrightarrow>
            fst (set_key s now k v options) = False
          \<and> store (snd (set_key s now k v options)) = store s
          \<and> shouldEvict (snd (set_key s now k v options)))
    \<and> (0 < snd (evictLoop s1 (nat (Math_ceil (real (length (store s1)) * (1 / 10)))) 0) \<longrightarrow>
            fst (set_key s now k v options) = True
          \<and> (\<exists>entry. Map_get (store (snd (set_key s now k v options))) k = Some entry
                \<and> val entry = v))"
proof (intro conjI impI)
  assume nv: "fst (selectVictim (evictionStrategy s1) (store s1)) = None"
  have st: "store s1 = store s" using assms(3) by simp
  from evictEntries_no_victim[OF nv assms(4)]
  obtain s2 where ev: "evictEntries s1 = (False, s2)" and s2: "store s2 = store s1" "shouldEvict s2"
    by (cases "evictEntries s1") auto
  have r: "set_key s now k v options = (False, s2)"
    using set_key_evicting[OF assms, of now v] ev by simp
  from r show "fst (set_key s now k v options) = False" by simp
  from r s2 st show "store (snd (set_key s now k v options)) = store s" by simp
  from r s2 show "shouldEvict (snd (set_key s now k v options))" by simp
next
  assume ev: "0 < snd (evictLoop s1 (nat (Math_ceil (real (length (store s1)) * (1 / 10)))) 0)"
  then obtain s2 where e: "evictEntries s1 = (True, s2)"
    by (cases "evictLoop s1 (nat (Math_ceil (real (length (store s1)) * (1 / 10)))) 0")
       (simp add: evictEntries_def)
  have r: "set_key s now k v options =
      (True, s2\<lparr> store := Map_set (store s2) k
                   (newCacheEntry now k v
                      (if (case ttl options of Some t \<Rightarrow> t | None \<Rightarrow> defaultTTL (config s)) > 0
                       then Some (case ttl options of Some t \<Rightarrow> t | None \<Rightarrow> defaultTTL (config s))
                       else None)),
                 evictionStrategy := onInsert (evictionStrategy s2) k \<rparr>)"
    using set_key_evicting[OF assms, of now v] e by simp
  from r show "fst (set_key s now k v options) = True" by simp
  from r show "\<exists>entry. Map_get (store (snd (set_key s now k v options))) k = Some entry
                \<and> val entry = v"
    by (simp add: newCacheEntry_def)
qed

theorem set_eviction_outcome_witness:
  "isValidKey ''k''
   \<and> overwrite \<lparr> ttl = None, overwrite = Some True \<rparr> = Some True
   \<and> shouldEvict (full\<lparr> evictionStrategy := onRemove (evictionStrategy full) ''k'' \<rparr>)
   \<and> fst (selectVictim (onRemove (evictionStrategy full) ''k'') (store full)) = None
   \<and> fst (set_key full 2 ''k'' (VNumber 1) \<lparr> ttl = None, overwrite = Some True \<rparr>) = False
   \<and> store (snd (set_key full 2 ''k'' (VNumber 1) \<lparr> ttl = None, overwrite = Some True \<rparr>))
       = store full
   \<and> isValidKey ''k2''
   \<and> Map_get (store full) ''k2'' = None
   \<and> shouldEvict full
   \<and> snd (evictLoop full (nat (Math_ceil (real (length (store full)) * (1 / 10)))) 0) = 1
   \<and> fst (set_key full 2 ''k2'' (VNumber 1) noOptions) = True
   \<and> map fst (store (snd (set_key full 2 ''k2'' (VNumber 1) noOptions))) = [''k2'']"
proof -
  let ?s1 = "full\<lparr> evictionStrategy := onRemove (evictionStrategy full) ''k'' \<rparr>"
  have v: "isValidKey ''k''" "isValidKey ''k2''" by (simp_all add: isValidKey_def)
  have o: "Map_get (store full) ''k'' = None
      \<or> overwrite \<lparr> ttl = None, overwrite = Some True \<rparr> = Some True" by simp
  have s1: "?s1 = (if Map_get (store full) ''k'' \<noteq> None
               then full\<lparr> evictionStrategy := onRemove (evictionStrategy full) ''k'' \<rparr> else full)"
    by (simp add: full_eq Map_get_def)
  have b: "shouldEvict ?s1" "shouldEvict full"
    by (simp_all add: full_eq shouldEvict_def getMaxMemoryBytes_def smallConfig_def bigValue_def)
  have n: "fst (selectVictim (evictionStrategy ?s1) (store ?s1)) = None"
    by (simp add: full_eq)
  have o2: "Map_get (store full) ''k2'' = None \<or> overwrite noOptions = Some True"
    by (simp add: full_eq Map_get_def)
  have s2: "full = (if Map_get (store full) ''k2'' \<noteq> None
               then full\<lparr> evictionStrategy := onRemove (evictionStrategy full) ''k2'' \<rparr> else full)"
    by (simp add: full_eq Map_get_def)
  have l: "snd (evictLoop full (nat (Math_ceil (real (length (store full)) * (1 / 10)))) 0) = 1"
    unfolding full_eq
    by (simp add: engine_defs smallConfig_def bigValue_def evictLoop.simps)
  have m: "map fst (store (snd (set_key full 2 ''k2'' (VNumber 1) noOptions))) = [''k2'']"
    unfolding full_eq
    by (simp add: engine_defs smallConfig_def bigValue_def evictLoop.simps)
  have st1: "store ?s1 = store full" by simp
  have pos: "0 < snd (evictLoop full (nat (Math_ceil (real (length (store full)) * (1 / 10)))) 0)"
    unfolding l by simp
  from set_eviction_outcome[OF v(1) o s1 b(1), of 2 "VNumber 1"] n
  have A: "fst (set_key full 2 ''k'' (VNumber 1) \<lparr> ttl = None, overwrite = Some True \<rparr>) = False
      \<and> store (snd (set_key full 2 ''k'' (VNumber 1) \<lparr> ttl = None, overwrite = Some True \<rparr>))
          = store full"
    by blast
  from set_eviction_outcome[OF v(2) o2 s2 b(2), of 2 "VNumber 1"] pos
  have B: "fst (set_key full 2 ''k2'' (VNumber 1) noOptions) = True"
    by blast
  have o2': "Map_get (store full) ''k2'' = None" by (simp add: full_eq Map_get_def)
  have n': "fst (selectVictim (onRemove (evictionStrategy full) ''k'') (store full)) = None"
    using n by simp
  have ov: "overwrite \<lparr> ttl = None, overwrite = Some True \<rparr> = Some True" by simp
  from v ov b(1) n' A o2' b(2) l B m show ?thesis by blast
qed

text \<open>
  C1 as stated fails: in \<^term>\<open>wedged\<close> the ceiling is breached and the strategy has no
  victim, and \<open>set\<close> of a fresh valid key returns false and inserts nothing.
\<close>

theorem set_reports_failure_when_wedged:
  "isValidKey ''k2''
   \<and> shouldEvict wedged
   \<and> fst (selectVictim (evictionStrategy wedged) (store wedged)) = None
   \<and> set_key wedged 3 ''k2'' (VNumber 1) noOptions = (False, wedged)
   \<and> Map_get (store wedged) ''k2'' = None"
  unfolding wedged_eq full_eq
  by (simp add: engine_defs smallConfig_def bigValue_def evictLoop.simps)

lemma evictEntries_success_iff:
  assumes "shouldEvict s"
  shows "fst (evictEntries s) \<longleftrightarrow>
     0 < snd (evictLoop s (nat (Math_ceil (real (length (store s)) * (1 / 10)))) 0)
     \<or> \<not> shouldEvict (fst (evictLoop s (nat (Math_ceil (real (length (store s)) * (1 / 10)))) 0))"
  by (cases "evictLoop s (nat (Math_ceil (real (length (store s)) * (1 / 10)))) 0")
     (simp add: evictEntries_def)

text \<open>
  C6, as amended. For a valid key \<open>k\<close> that is absent from the store, or with \<open>overwrite\<close>
  passed as true, \<open>set(k, v, options)\<close> at time \<open>now\<close> returns true and stores an entry with
  value \<open>v\<close>, provided the memory ceiling is not reached (\<open>shouldEvict\<close>, after a present
  key was unregistered) or the eviction loop evicts at least one entry. A \<open>get(k)\<close> at
  time \<open>now'\<close> then returns \<open>v\<close> if the resolved TTL (the option, else the configured
  default) is zero or negative, whatever \<open>now'\<close> is, or if \<open>now'\<close> is not past
  \<open>now + ttl \<times> 1000\<close>, which the time of the \<open>set\<close> itself never is. A resolved TTL that is
  zero or negative gives an entry that never expires.
\<close>

theorem set_then_get:
  assumes "isValidKey k"
    and "Map_get (store s) k = None \<or> overwrite options = Some True"
    and "s1 = (if Map_get (store s) k \<noteq> None
               then s\<lparr> evictionStrategy := onRemove (evictionStrategy s) k \<rparr> else s)"
    and "\<not> shouldEvict s1
         \<or> 0 < snd (evictLoop s1 (nat (Math_ceil (real (length (store s1)) * (1 / 10)))) 0)"
    and "ttl' = (case ttl options of Some t \<Rightarrow> t | None \<Rightarrow> defaultTTL (config s))"
    and "ttl' \<le> 0 \<or> now' \<le> now + ttl' * 1000"
  shows "fst (set_key s now k v options) = True
    \<and> fst (get (snd (set_key s now k v options)) now' k) = v
    \<and> (\<exists>entry. Map_get (store (snd (set_key s now k v options))) k = Some entry
          \<and> val entry = v
          \<and> expiresAt entry = (if ttl' \<le> 0 then None else Some (now + ttl' * 1000)))"
proof -
  let ?entry = "newCacheEntry now k v (if ttl' > 0 then Some ttl' else None)"
  obtain ok s' where r: "set_key s now k v options = (ok, s')"
    by (cases "set_key s now k v options")
  have ok: "ok = True"
  proof (cases "shouldEvict s1")
    case True
    with assms(4) have "0 < snd (evictLoop s1 (nat (Math_ceil (real (length (store s1)) * (1 / 10)))) 0)"
      by simp
    then have "fst (evictEntries s1)"
      using evictEntries_success_iff[OF True] by simp
    then show ?thesis
      using set_key_evicting[OF assms(1,2,3) True, of now v] r
      by (cases "evictEntries s1") simp
  next
    case False
    show ?thesis
    proof (cases "Map_get (store s) k")
      case None
      with assms(3) have "s1 = s" by simp
      with False None assms(1) r show ?thesis by (simp add: set_key_def Let_def)
    next
      case (Some e)
      with assms(3) have s1: "s\<lparr> evictionStrategy := onRemove (evictionStrategy s) k \<rparr> = s1"
        by simp
      from Some assms(2) have "overwrite options = Some True" by simp
      with False Some assms(1) r show ?thesis by (simp add: set_key_def Let_def s1)
    qed
  qed
  have g: "Map_get (store s') k = Some ?entry"
    using r ok unfolding set_key_def Let_def assms(5)
    by (auto split: if_splits prod.splits)
  have x: "expiresAt ?entry = (if ttl' \<le> 0 then None else Some (now + ttl' * 1000))"
    by (simp add: newCacheEntry_def)
  have ne: "\<not> isExpired now' ?entry"
    using assms(6) by (auto simp: isExpired_def x)
  have "fst (get s' now' k) = v"
    using g ne by (simp add: get_def Let_def markAccessed_def newCacheEntry_def)
  moreover have "val ?entry = v" by (simp add: newCacheEntry_def)
  ultimately show ?thesis using g x r ok by auto
qed

theorem set_then_get_witness:
  "isValidKey ''key1''
   \<and> Map_get (store (newCacheEngine 0 defaultConfig (Some LRU))) ''key1'' = None
   \<and> \<not> shouldEvict (newCacheEngine 0 defaultConfig (Some LRU))
   \<and> fst (set_key (newCacheEngine 0 defaultConfig (Some LRU)) 1 ''key1'' (VString ''value1'')
            \<lparr> ttl = Some (- 5), overwrite = None \<rparr>) = True
   \<and> fst (get (snd (set_key (newCacheEngine 0 defaultConfig (Some LRU)) 1 ''key1''
                       (VString ''value1'') \<lparr> ttl = Some (- 5), overwrite = None \<rparr>))
            1000000000 ''key1'') = VString ''value1''
   \<and> isValidKey ''k2''
   \<and> Map_get (store full) ''k2'' = None
   \<and> shouldEvict full
   \<and> snd (evictLoop full (nat (Math_ceil (real (length (store full)) * (1 / 10)))) 0) = 1
   \<and> fst (set_key full 2 ''k2'' (VNumber 1) noOptions) = True
   \<and> fst (get (snd (set_key full 2 ''k2'' (VNumber 1) noOptions)) 2 ''k2'') = VNumber 1"
proof -
  let ?e = "newCacheEngine 0 defaultConfig (Some LRU)"
  have v: "isValidKey ''key1''" "isValidKey ''k2''" by (simp_all add: isValidKey_def)
  have a: "Map_get (store ?e) ''key1'' = None" by (simp add: newCacheEngine_def Map_get_def)
  then have a': "Map_get (store ?e) ''key1'' = None
      \<or> overwrite \<lparr> ttl = Some (- 5), overwrite = None \<rparr> = Some True" by simp
  have s1: "?e = (if Map_get (store ?e) ''key1'' \<noteq> None
               then ?e\<lparr> evictionStrategy := onRemove (evictionStrategy ?e) ''key1'' \<rparr> else ?e)"
    using a by simp
  have ns: "\<not> shouldEvict ?e"
    by (simp add: shouldEvict_def newCacheEngine_def getMaxMemoryBytes_def defaultConfig_def)
  then have ns': "\<not> shouldEvict ?e
      \<or> 0 < snd (evictLoop ?e (nat (Math_ceil (real (length (store ?e)) * (1 / 10)))) 0)"
    by simp
  have t: "(- 5 :: real) = (case ttl \<lparr> ttl = Some (- 5), overwrite = None \<rparr> of
              Some t \<Rightarrow> t | None \<Rightarrow> defaultTTL (config ?e))"
    by simp
  have c: "(- 5 :: real) \<le> 0 \<or> (1000000000 :: real) \<le> 1 + (- 5) * 1000" by simp
  from set_then_get[OF v(1) a' s1 ns' t c, of "VString ''value1''"]
  have A: "fst (set_key ?e 1 ''key1'' (VString ''value1'')
            \<lparr> ttl = Some (- 5), overwrite = None \<rparr>) = True
      \<and> fst (get (snd (set_key ?e 1 ''key1''
                       (VString ''value1'') \<lparr> ttl = Some (- 5), overwrite = None \<rparr>))
            1000000000 ''key1'') = VString ''value1''"
    by blast
  have b: "Map_get (store full) ''k2'' = None" by (simp add: full_eq Map_get_def)
  then have b': "Map_get (store full) ''k2'' = None \<or> overwrite noOptions = Some True" by simp
  have s2: "full = (if Map_get (store full) ''k2'' \<noteq> None
               then full\<lparr> evictionStrategy := onRemove (evictionStrategy full) ''k2'' \<rparr> else full)"
    using b by simp
  have se: "shouldEvict full"
    by (simp add: full_eq shouldEvict_def getMaxMemoryBytes_def smallConfig_def bigValue_def)
  have l: "snd (evictLoop full (nat (Math_ceil (real (length (store full)) * (1 / 10)))) 0) = 1"
    unfolding full_eq
    by (simp add: engine_defs smallConfig_def bigValue_def evictLoop.simps)
  then have l': "\<not> shouldEvict full
      \<or> 0 < snd (evictLoop full (nat (Math_ceil (real (length (store full)) * (1 / 10)))) 0)"
    by simp
  have t2: "(3600 :: real) = (case ttl noOptions of
              Some t \<Rightarrow> t | None \<Rightarrow> defaultTTL (config full))"
    by (simp add: noOptions_def full_eq smallConfig_def)
  have c2: "(3600 :: real) \<le> 0 \<or> (2 :: real) \<le> 2 + 3600 * 1000" by simp
  from set_then_get[OF v(2) b' s2 l' t2 c2, of "VNumber 1"]
  have B: "fst (set_key full 2 ''k2'' (VNumber 1) noOptions) = True
      \<and> fst (get (snd (set_key full 2 ''k2'' (VNumber 1) noOptions)) 2 ''k2'') = VNumber 1"
    by blast
  from v a ns A b se l B show ?thesis by blast
qed

text \<open>
  C6 as stated fails: \<open>set\<close> of the valid key \<open>k2\<close> on \<^term>\<open>wedged\<close> returns false, and
  the \<open>get\<close> that follows at the same time returns \<open>null\<close>, not the value.
\<close>

theorem roundtrip_misses_when_wedged:
  "isValidKey ''k2''
   \<and> fst (set_key wedged 3 ''k2'' (VNumber 1) noOptions) = False
   \<and> fst (get (snd (set_key wedged 3 ''k2'' (VNumber 1) noOptions)) 3 ''k2'') = VNull"
  unfolding wedged_eq full_eq
  by (simp add: engine_defs smallConfig_def bigValue_def evictLoop.simps)


section \<open>Overwriting\<close>

lemma firstSet_eq:
  "firstSet =
     \<lparr> store = [(''key1'', \<lparr> key = ''key1'', val = VString ''value1'', createdAt = 1,
                            expiresAt = Some 3600001, lastAccessedAt = 1, accessCount = 0 \<rparr>)],
       evictionStrategy = LRUStrategy [''key1''], config = defaultConfig,
       stats = \<lparr> hitCount = 0, missCount = 0, evictionCount = 0, expiredCount = 0,
                 startTime = 0 \<rparr> \<rparr>"
  by (simp add: firstSet_def engine_defs defaultConfig_def)

lemma set_key_present_without_overwrite:
  "isValidKey k \<Longrightarrow> Map_get (store s) k = Some entry \<Longrightarrow> overwrite options \<noteq> Some True \<Longrightarrow>
     set_key s now k v options = (False, s)"
  by (simp add: set_key_def)

text \<open>
  C2 on the unit test \<open>should overwrite by default\<close>: the second \<open>set\<close> of the valid key
  \<open>key1\<close>, with no options, returns false and leaves the engine as it was, and \<open>get\<close>
  still returns the first value. The test expects true and the second value.
\<close>

theorem set_default_does_not_overwrite:
  "fst (set_key (newCacheEngine 0 defaultConfig (Some LRU)) 1 ''key1'' (VString ''value1'')
          noOptions) = True
   \<and> isValidKey ''key1''
   \<and> set_key firstSet 2 ''key1'' (VString ''value2'') noOptions = (False, firstSet)
   \<and> fst (get firstSet 3 ''key1'') = VString ''value1''"
  unfolding firstSet_eq by (simp add: engine_defs defaultConfig_def)

section \<open>Clearing\<close>

lemma clear_effects:
  "store (clear s) = [] \<and> keys (clear s) now = []
   \<and> totalKeys (fst (getStats (clear s) now)) = 0
   \<and> evictionStrategy (clear s) = evictionStrategy s"
  by (simp add: clear_def keys_def getStats_def Let_def)

text \<open>
  C3 after one \<open>set\<close> and \<open>clear\<close>: the store is empty, \<open>keys\<close> is empty and \<open>totalKeys\<close>
  is 0, but the access order of the LRU strategy still holds the key.
\<close>

theorem clear_keeps_bookkeeping:
  "keys (clear firstSet) 2 = []
   \<and> totalKeys (fst (getStats (clear firstSet) 2)) = 0
   \<and> evictionStrategy (clear firstSet) = LRUStrategy [''key1'']
   \<and> bookkeeping (evictionStrategy (clear firstSet)) \<noteq> []"
  unfolding firstSet_eq by (simp add: engine_defs)

lemma reinserted_wrong_victim:
  "map fst (store reinserted) = [''b'', ''a'']
   \<and> evictionStrategy reinserted = FIFOStrategy [''a'', ''b'', ''b'', ''a'']
   \<and> fst (selectVictim (evictionStrategy reinserted) (store reinserted)) = Some ''a''"
  by (simp add: reinserted_def engine_defs defaultConfig_def)

section \<open>Increment\<close>

text \<open>
  C5 at the instant of expiry: the entry of \<^term>\<open>expiring\<close> expires at 1000, so at time
  1000 it is not yet expired and its remaining TTL is 0. \<open>increment\<close> returns 15, and the
  replacement entry never expires.
\<close>

theorem increment_at_expiry_instant:
  "Map_get (store expiring) ''key1'' \<noteq> None
   \<and> expiresAt (the (Map_get (store expiring) ''key1'')) = Some 1000
   \<and> \<not> isExpired 1000 (the (Map_get (store expiring) ''key1''))
   \<and> getRemainingTTL 1000 (the (Map_get (store expiring) ''key1'')) = Some 0
   \<and> fst (increment expiring 1000 ''key1'' 5) = Some 15
   \<and> expiresAt (the (Map_get (store (snd (increment expiring 1000 ''key1'' 5))) ''key1'')) = None"
  unfolding expiring_eq by (simp add: engine_defs)

text \<open>
  Away from that instant \<open>increment\<close> does what C5 says: on a numeric entry that is not
  expired it returns the sum, stores it, notifies the strategy of an access and keeps the
  remaining TTL (never-expiring stays so; a remaining TTL above 0 is carried over in whole
  seconds); on any other value it returns \<open>null\<close> and changes nothing.
\<close>

lemma ceiling_pos_ttl:
  fixes x now :: real
  assumes "now < x"
  shows "0 < \<lceil>max 0 (x - now) / 1000\<rceil>"
  using assms by (simp add: max_def)

lemma increment_numeric:
  assumes "Map_get (store s) k = Some entry" and "\<not> isExpired now entry"
    and "val entry = VNumber n"
  shows "fst (increment s now k delta) = Some (n + delta)
    \<and> evictionStrategy (snd (increment s now k delta)) = onAccess (evictionStrategy s) k
    \<and> (\<exists>entry'. Map_get (store (snd (increment s now k delta))) k = Some entry'
          \<and> val entry' = VNumber (n + delta)
          \<and> (expiresAt entry = None \<longrightarrow> expiresAt entry' = None)
          \<and> (\<forall>x. expiresAt entry = Some x \<and> now < x \<longrightarrow>
                getRemainingTTL now entry' = getRemainingTTL now entry))"
proof -
  let ?r = "case getRemainingTTL now entry of None \<Rightarrow> None
            | Some r \<Rightarrow> if r = 0 then None else Some r"
  let ?e = "newCacheEntry now k (VNumber (n + delta)) ?r"
  have inc: "increment s now k delta =
      (Some (n + delta), s\<lparr> store := Map_set (store s) k ?e,
                            evictionStrategy := onAccess (evictionStrategy s) k \<rparr>)"
    using assms by (simp add: increment_def Let_def)
  have never: "expiresAt entry = None \<longrightarrow> expiresAt ?e = None"
    by (simp add: getRemainingTTL_def newCacheEntry_def)
  have finite: "\<forall>x. expiresAt entry = Some x \<and> now < x \<longrightarrow>
                getRemainingTTL now ?e = getRemainingTTL now entry"
  proof (intro allI impI)
    fix x assume a: "expiresAt entry = Some x \<and> now < x"
    define r where "r = \<lceil>max 0 (x - now) / 1000\<rceil>"
    have p: "0 < r" unfolding r_def using a ceiling_pos_ttl by blast
    then have p': "0 < real_of_int r" "real_of_int r \<noteq> 0" by simp_all
    have old: "getRemainingTTL now entry = Some (real_of_int r)"
      using a by (simp add: getRemainingTTL_def r_def)
    have "expiresAt ?e = Some (now + real_of_int r * 1000)"
      unfolding old using p' by (simp add: newCacheEntry_def)
    then have "getRemainingTTL now ?e = Some (real_of_int \<lceil>max 0 (real_of_int r * 1000) / 1000\<rceil>)"
      by (simp add: getRemainingTTL_def)
    also have "max 0 (real_of_int r * 1000) / 1000 = real_of_int r" using p' by (simp add: max_def)
    finally show "getRemainingTTL now ?e = getRemainingTTL now entry"
      using old by simp
  qed
  show ?thesis unfolding inc using never finite by (simp add: newCacheEntry_def)
qed

lemma increment_not_numeric:
  assumes "Map_get (store s) k = Some entry" and "\<forall>n. val entry \<noteq> VNumber n"
  shows "increment s now k delta = (None, s)"
  using assms by (cases "val entry") (auto simp: increment_def)

section \<open>Statistics\<close>

text \<open>
  \<open>binade\<close> is the floor of the binary logarithm and \<open>pow2\<close> the power of two, so
  \<open>float64\<close> rounds to a multiple of the unit in the last place of the number's binade; one
  rounding to a double moves a positive number by at most one part in \<open>2 ^ 53\<close>.
\<close>

lemma pow2_powr: "pow2 e = 2 powr (of_int e)"
proof (cases "0 \<le> e")
  case True
  then have "real_of_int e = real (nat e)" by simp
  then have "(2::real) powr (of_int e) = 2 ^ nat e" by (simp only: powr_realpow zero_less_numeral)
  with True show ?thesis by (simp add: pow2_def)
next
  case False
  then have "real_of_int e = - real (nat (- e))" by simp
  then have "(2::real) powr (of_int e) = 1 / 2 ^ nat (- e)"
    by (simp only: powr_minus_divide powr_realpow zero_less_numeral)
  with False show ?thesis by (simp add: pow2_def)
qed

lemma binade_floor_log: "0 < x \<Longrightarrow> binade x = \<lfloor>log 2 x\<rfloor>"
proof (induction x rule: binade.induct)
  case (1 x)
  show ?case
  proof (cases "2 \<le> x")
    case True
    with "1.prems" "1.IH"(1) have "binade (x / 2) = \<lfloor>log 2 (x / 2)\<rfloor>" by simp
    moreover have "log 2 (x / 2) = log 2 x - 1" using "1.prems" by (simp add: log_divide)
    ultimately have "binade (x / 2) + 1 = \<lfloor>log 2 x\<rfloor>" by simp
    then show ?thesis using True "1.prems" by (subst binade.simps) simp
  next
    case nbig: False
    show ?thesis
    proof (cases "x < 1")
      case True
      with "1.prems" nbig "1.IH"(2) have "binade (x * 2) = \<lfloor>log 2 (x * 2)\<rfloor>" by simp
      moreover have "log 2 (x * 2) = log 2 x + 1" using "1.prems" by (simp add: log_mult)
      ultimately have "binade (x * 2) - 1 = \<lfloor>log 2 x\<rfloor>" by simp
      then show ?thesis using True nbig "1.prems" by (subst binade.simps) simp
    next
      case False
      then have "0 \<le> log 2 x" using "1.prems" by simp
      moreover have "log 2 x < 1" using nbig "1.prems" by (simp add: log_less_iff)
      ultimately have "\<lfloor>log 2 x\<rfloor> = 0" by linarith
      then show ?thesis using False nbig "1.prems" by (subst binade.simps) simp
    qed
  qed
qed

lemma float64_log:
  "x \<noteq> 0 \<Longrightarrow>
   float64 x = of_int (roundTiesToEven (x / 2 powr (of_int \<lfloor>log 2 \<bar>x\<bar>\<rfloor> - 52)))
                 * 2 powr (of_int \<lfloor>log 2 \<bar>x\<bar>\<rfloor> - 52)"
  by (simp add: float64_def Let_def pow2_powr binade_floor_log)

lemma roundTiesToEven_error: "\<bar>of_int (roundTiesToEven x) - x\<bar> \<le> 1 / 2"
  unfolding roundTiesToEven_def Let_def by (auto; linarith)

lemma float64_zero [simp]: "float64 0 = 0"
  by (simp add: float64_def)

lemma float64_error:
  assumes "0 < x"
  shows "\<bar>float64 x - x\<bar> \<le> x / 2 ^ 53"
proof -
  define e where "e = \<lfloor>log 2 \<bar>x\<bar>\<rfloor>"
  define ulp :: real where "ulp = 2 powr (of_int e - 52)"
  have up: "0 < ulp" by (simp add: ulp_def)
  have "of_int e \<le> log 2 x" using assms by (simp add: e_def)
  then have "2 powr (of_int e) \<le> x" using assms by (simp add: le_log_iff)
  moreover have "ulp = 2 powr (of_int e) / 2 ^ 52"
    by (simp add: ulp_def powr_diff)
  ultimately have ulp_le: "ulp \<le> x / 2 ^ 52" by (simp add: divide_right_mono)
  have f: "float64 x = of_int (roundTiesToEven (x / ulp)) * ulp"
    using assms float64_log[of x] by (simp add: e_def ulp_def)
  have "\<bar>float64 x - x\<bar> = \<bar>of_int (roundTiesToEven (x / ulp)) - x / ulp\<bar> * ulp"
  proof -
    have "float64 x - x = (of_int (roundTiesToEven (x / ulp)) - x / ulp) * ulp"
      using up by (simp add: f field_simps)
    then show ?thesis using up by (simp add: abs_mult)
  qed
  also have "\<dots> \<le> (1 / 2) * ulp"
    using roundTiesToEven_error[of "x / ulp"] up by (simp add: mult_right_mono)
  also have "\<dots> \<le> (1 / 2) * (x / 2 ^ 52)" using ulp_le by simp
  finally show ?thesis by simp
qed

text \<open>The definitions that evaluate \<open>float64\<close> and \<open>Math.round\<close> at a numeral.\<close>

lemmas float64_eval = float64_def binade.simps pow2_def roundTiesToEven_def Math_round_def

lemma round_near_fraction:
  fixes a t :: int and y :: real
  assumes t: "0 < t"
    and close: "\<bar>y - real_of_int a / real_of_int t\<bar> < 1 / (2 * real_of_int t)"
  shows "\<bar>real_of_int \<lfloor>y + 1 / 2\<rfloor> - real_of_int a / real_of_int t\<bar> \<le> 1 / 2"
proof -
  define n where "n = \<lfloor>y + 1 / 2\<rfloor>"
  have lo: "of_int n - 1 / 2 \<le> y" and hi: "y < of_int n + 1 / 2"
    unfolding n_def by linarith+
  have tp: "(0::real) < of_int t" using t by simp
  have upper: "real_of_int a / real_of_int t \<le> real_of_int n + 1 / 2"
  proof (rule ccontr)
    assume "\<not> real_of_int a / real_of_int t \<le> real_of_int n + 1 / 2"
    then have "real_of_int n + 1 / 2 < real_of_int a / real_of_int t" by simp
    then have "(of_int n + 1 / 2) * of_int t < (of_int a :: real)"
      using tp pos_less_divide_eq[of "real_of_int t" "real_of_int n + 1 / 2" "real_of_int a"]
      by blast
    then have "real_of_int ((2 * n + 1) * t) < real_of_int (2 * a)"
      by (simp add: algebra_simps)
    then have "(2 * n + 1) * t < 2 * a" by linarith
    then have "(2 * n + 1) * t + 1 \<le> 2 * a" by simp
    then have "real_of_int ((2 * n + 1) * t + 1) \<le> real_of_int (2 * a)" by linarith
    then have "(of_int n + 1 / 2) * of_int t + 1 / 2 \<le> (of_int a :: real)"
      by (simp add: algebra_simps)
    then have "((of_int n + 1 / 2) * of_int t + 1 / 2) / real_of_int t
        \<le> real_of_int a / real_of_int t"
      using tp by (simp add: divide_right_mono)
    moreover have "((of_int n + 1 / 2) * of_int t + 1 / 2) / real_of_int t
        = real_of_int n + 1 / 2 + 1 / (2 * real_of_int t)"
      using tp by (simp add: add_divide_distrib)
    ultimately have "real_of_int n + 1 / 2 + 1 / (2 * real_of_int t)
        \<le> real_of_int a / real_of_int t"
      by simp
    with close hi show False by linarith
  qed
  have lower: "real_of_int n - 1 / 2 \<le> real_of_int a / real_of_int t"
  proof (rule ccontr)
    assume "\<not> real_of_int n - 1 / 2 \<le> real_of_int a / real_of_int t"
    then have "real_of_int a / real_of_int t < real_of_int n - 1 / 2" by simp
    then have "(of_int a :: real) < (of_int n - 1 / 2) * of_int t"
      using tp pos_divide_less_eq[of "real_of_int t" "real_of_int a" "real_of_int n - 1 / 2"]
      by blast
    then have "real_of_int (2 * a) < real_of_int ((2 * n - 1) * t)"
      by (simp add: algebra_simps)
    then have "2 * a < (2 * n - 1) * t" by linarith
    then have "2 * a + 1 \<le> (2 * n - 1) * t" by simp
    then have "real_of_int (2 * a + 1) \<le> real_of_int ((2 * n - 1) * t)" by linarith
    then have "(of_int a :: real) + 1 / 2 \<le> (of_int n - 1 / 2) * of_int t"
      by (simp add: algebra_simps)
    then have "(real_of_int a + 1 / 2) / real_of_int t \<le> real_of_int n - 1 / 2"
      using tp pos_divide_le_eq[of "real_of_int t" "real_of_int a + 1 / 2" "real_of_int n - 1 / 2"]
      by blast
    moreover have "(real_of_int a + 1 / 2) / real_of_int t
        = real_of_int a / real_of_int t + 1 / (2 * real_of_int t)"
      using tp by (simp add: add_divide_distrib)
    ultimately have "real_of_int a / real_of_int t + 1 / (2 * real_of_int t)
        \<le> real_of_int n - 1 / 2"
      by simp
    with close lo show False by linarith
  qed
  from upper lower show ?thesis unfolding n_def[symmetric] by linarith
qed

lemma scaled_quotient_error:
  fixes h t :: nat
  assumes "0 < h" and "h \<le> t"
  shows "\<bar>float64 (float64 (real h / real t) * 10000) - 10000 * real h / real t\<bar>
           \<le> 30000 / 2 ^ 53
         \<and> 0 \<le> float64 (float64 (real h / real t) * 10000)"
proof -
  define x where "x = real h / real t"
  define x1 where "x1 = float64 x"
  define z where "z = x1 * 10000"
  have tp: "0 < real t" using assms by simp
  have x: "0 < x" "x \<le> 1" using assms by (simp_all add: x_def)
  have e1: "\<bar>x1 - x\<bar> \<le> x / 2 ^ 53" unfolding x1_def using x(1) by (rule float64_error)
  have "x / 2 ^ 53 < x" using x(1) by simp
  with e1 have x1: "0 < x1" "x1 \<le> 2" using x by linarith+
  have z: "0 < z" "z \<le> 20000" using x1 by (simp_all add: z_def)
  have e2: "\<bar>float64 z - z\<bar> \<le> z / 2 ^ 53" using z(1) by (rule float64_error)
  have "z / 2 ^ 53 < z" using z(1) by simp
  with e2 have nonneg: "0 \<le> float64 z" by linarith
  have "z / 2 ^ 53 \<le> 20000 / 2 ^ 53" using z(2) by (simp add: divide_right_mono)
  with e2 have e2': "\<bar>float64 z - z\<bar> \<le> 20000 / 2 ^ 53" by linarith
  have "x / 2 ^ 53 \<le> 1 / 2 ^ 53" using x(2) by (simp add: divide_right_mono)
  with e1 have "\<bar>x1 - x\<bar> \<le> 1 / 2 ^ 53" by linarith
  then have e1': "\<bar>z - 10000 * x\<bar> \<le> 10000 / 2 ^ 53" unfolding z_def by linarith
  from e1' e2' have "\<bar>float64 z - 10000 * x\<bar> \<le> 30000 / 2 ^ 53" by linarith
  with nonneg show ?thesis by (simp add: z_def x1_def x_def)
qed

lemma hitRate_integer_nearest:
  fixes h m :: nat
  assumes pos: "0 < h + m" and small: "h + m < 2 ^ 37"
  defines "n \<equiv> Math_round (float64 (float64 (real h / real (h + m)) * 10000))"
  shows "0 \<le> n \<and> \<bar>real_of_int n - 10000 * real h / real (h + m)\<bar> \<le> 1 / 2"
proof (cases "h = 0")
  case True
  then show ?thesis by (simp add: n_def Math_round_def)
next
  case False
  define t where "t = h + m"
  let ?y = "float64 (float64 (real h / real t) * 10000)"
  from False have h: "0 < h" "h \<le> t" by (simp_all add: t_def)
  have tpos: "0 < t" using pos by (simp add: t_def)
  from scaled_quotient_error[OF h]
  have err: "\<bar>?y - 10000 * real h / real t\<bar> \<le> 30000 / 2 ^ 53" and nonneg: "0 \<le> ?y"
    by blast+
  have "t < 2 ^ 37" using small by (simp add: t_def)
  then have "real t < 2 ^ 37" by (metis of_nat_less_numeral_power_cancel_iff)
  then have "2 * real t < 2 ^ 38" by simp
  moreover have rt: "(0::real) < 2 * real t" using tpos by simp
  ultimately have "1 / (2 ^ 38 :: real) < 1 / (2 * real t)"
    by (simp only: frac_less2 zero_less_one order_refl)
  moreover have "(30000 :: real) / 2 ^ 53 < 1 / 2 ^ 38" by simp
  ultimately have close: "\<bar>?y - 10000 * real h / real t\<bar> < 1 / (2 * real t)"
    using err by linarith
  have "\<bar>real_of_int \<lfloor>?y + 1 / 2\<rfloor> - real_of_int (10000 * int h) / real_of_int (int t)\<bar> \<le> 1 / 2"
  proof (rule round_near_fraction)
    show "0 < int t" using tpos by simp
    show "\<bar>?y - real_of_int (10000 * int h) / real_of_int (int t)\<bar>
        < 1 / (2 * real_of_int (int t))"
      using close by simp
  qed
  then have "\<bar>real_of_int n - 10000 * real h / real t\<bar> \<le> 1 / 2"
    by (simp add: n_def Math_round_def t_def)
  moreover have "0 \<le> n" unfolding n_def Math_round_def t_def[symmetric] using nonneg by simp
  ultimately show ?thesis by (simp add: t_def)
qed

lemma get_miss:
  "Map_get (store s) k = None \<Longrightarrow>
     snd (get s now k) = s\<lparr> stats := (stats s)\<lparr> missCount := missCount (stats s) + 1 \<rparr> \<rparr>"
  by (simp add: get_def)

lemma repeatGet_misses:
  "Map_get (store s) k = None \<Longrightarrow>
     repeatGet n now k s = s\<lparr> stats := (stats s)\<lparr> missCount := missCount (stats s) + n \<rparr> \<rparr>"
proof (induction n)
  case 0
  then show ?case by (simp add: repeatGet_def)
next
  case (Suc n)
  then have "repeatGet n now k s
      = s\<lparr> stats := (stats s)\<lparr> missCount := missCount (stats s) + n \<rparr> \<rparr>"
    by simp
  moreover have "repeatGet (Suc n) now k s = snd (get (repeatGet n now k s) now k)"
    by (simp add: repeatGet_def)
  ultimately show ?case using Suc.prems by (simp add: get_miss)
qed

lemma Map_set_present_keys:
  "Map_get m k = Some v \<Longrightarrow> map fst (Map_set m k v') = map fst m"
  by (induction m) (auto simp: Map_get_def split: if_splits)

lemma Map_get_None_iff_keys: "Map_get m k = None \<longleftrightarrow> k \<notin> set (map fst m)"
  by (simp add: Map_get_def map_of_eq_None_iff)

lemma get_hit:
  assumes "Map_get (store s) k = Some entry" and "\<not> isExpired now entry"
  shows "stats (snd (get s now k)) = (stats s)\<lparr> hitCount := hitCount (stats s) + 1 \<rparr>
     \<and> map fst (store (snd (get s now k))) = map fst (store s)
     \<and> (\<exists>entry'. Map_get (store (snd (get s now k))) k = Some entry'
           \<and> expiresAt entry' = expiresAt entry)"
  using assms by (simp add: get_def Let_def Map_set_present_keys markAccessed_def)

lemma repeatGet_hits:
  assumes "Map_get (store s) k = Some entry" and "\<not> isExpired now entry"
  shows "stats (repeatGet n now k s) = (stats s)\<lparr> hitCount := hitCount (stats s) + n \<rparr>
     \<and> map fst (store (repeatGet n now k s)) = map fst (store s)
     \<and> (\<exists>entry'. Map_get (store (repeatGet n now k s)) k = Some entry'
           \<and> expiresAt entry' = expiresAt entry)"
proof (induction n)
  case 0
  show ?case using assms by (simp add: repeatGet_def)
next
  case (Suc n)
  let ?s = "repeatGet n now k s"
  from Suc obtain entry' where e: "Map_get (store ?s) k = Some entry'"
    "expiresAt entry' = expiresAt entry" by blast
  have ne: "\<not> isExpired now entry'" using assms(2) e(2) by (simp add: isExpired_def)
  have step: "repeatGet (Suc n) now k s = snd (get ?s now k)" by (simp add: repeatGet_def)
  from get_hit[OF e(1) ne] Suc e(2) show ?case unfolding step by auto
qed

lemma firstSet_key1:
  "Map_get (store firstSet) ''key1'' =
     Some \<lparr> key = ''key1'', val = VString ''value1'', createdAt = 1,
            expiresAt = Some 3600001, lastAccessedAt = 1, accessCount = 0 \<rparr>"
  by (simp add: firstSet_eq Map_get_def)

lemma hits_then_misses_stats:
  "stats (repeatGet m 3 ''nonexistent'' (repeatGet h 2 ''key1'' firstSet))
     = \<lparr> hitCount = h, missCount = m, evictionCount = 0, expiredCount = 0, startTime = 0 \<rparr>"
proof -
  let ?s = "repeatGet h 2 ''key1'' firstSet"
  have ne: "\<not> isExpired 2 \<lparr> key = ''key1'', val = VString ''value1'', createdAt = 1,
            expiresAt = Some 3600001, lastAccessedAt = 1, accessCount = 0 \<rparr>"
    by (simp add: isExpired_def)
  from repeatGet_hits[OF firstSet_key1 ne, of h]
  have st: "stats ?s = (stats firstSet)\<lparr> hitCount := hitCount (stats firstSet) + h \<rparr>"
    and ks: "map fst (store ?s) = map fst (store firstSet)" by blast+
  have "Map_get (store ?s) ''nonexistent'' = None"
    unfolding Map_get_None_iff_keys ks by (simp add: firstSet_eq)
  from repeatGet_misses[OF this, of m 3] st show ?thesis by (simp add: firstSet_eq)
qed

lemma tied_stats:
  "stats tied = \<lparr> hitCount = 57, missCount = 743, evictionCount = 0, expiredCount = 0,
                   startTime = 0 \<rparr>"
  unfolding tied_def by (rule hits_then_misses_stats)

lemma flipped_stats:
  "stats flipped = \<lparr> hitCount = 571460282383, missCount = 330679243046, evictionCount = 0,
                      expiredCount = 0, startTime = 0 \<rparr>"
  unfolding flipped_def by (rule hits_then_misses_stats)

lemma getStats_hitRate_eq:
  "0 < hitCount (stats s) + missCount (stats s) \<Longrightarrow>
   hitRate (fst (getStats s now)) =
     float64 (real_of_int (Math_round (float64 (float64
        (real (hitCount (stats s)) / real (hitCount (stats s) + missCount (stats s))) * 10000)))
      / 100)"
  by (simp add: getStats_def Let_def)

lemma tied_hitRate: "hitRate (fst (getStats tied now)) = 8016407336719483 / 2 ^ 50"
proof -
  have q: "float64 (57 / 800) = 5134103575202365 / 2 ^ 56"
    by (simp add: float64_eval)
  have y: "float64 (5134103575202365 / 2 ^ 56 * 10000) = 6267216278323199 / 2 ^ 43"
    by (simp add: float64_eval)
  have n: "Math_round (6267216278323199 / 2 ^ 43) = 712"
    by (simp add: Math_round_def)
  have r: "float64 (712 / 100) = 8016407336719483 / 2 ^ 50"
    by (simp add: float64_eval)
  have "hitRate (fst (getStats tied now)) =
     float64 (real_of_int (Math_round (float64 (float64 (57 / 800) * 10000))) / 100)"
    by (simp add: getStats_hitRate_eq tied_stats)
  then show ?thesis unfolding q y n using r by simp
qed

lemma flipped_hitRate: "hitRate (fst (getStats flipped now)) = 8915719887310029 / 2 ^ 47"
proof -
  have q: "float64 (571460282383 / 902139525429) = 5705610367915681 / 2 ^ 53"
    by (simp add: float64_eval)
  have y: "float64 (5705610367915681 / 2 ^ 53 * 10000) = 12669 / 2"
    by (simp add: float64_eval)
  have n: "Math_round (12669 / 2) = 6335"
    by (simp add: Math_round_def)
  have r: "float64 (6335 / 100) = 8915719887310029 / 2 ^ 47"
    by (simp add: float64_eval)
  have "hitRate (fst (getStats flipped now)) =
     float64 (real_of_int (Math_round (float64 (float64 (571460282383 / 902139525429) * 10000))) / 100)"
    by (simp add: getStats_hitRate_eq flipped_stats)
  then show ?thesis unfolding q y n using r by simp
qed

lemma hitsAndMisses_hitRate:
  "hitRate (fst (getStats hitsAndMisses now)) = 4691484174324859 / 2 ^ 46"
proof -
  have q: "float64 (2 / 3) = 6004799503160661 / 2 ^ 53"
    by (simp add: float64_eval)
  have y: "float64 (6004799503160661 / 2 ^ 53 * 10000) = 3665038759253333 / 2 ^ 39"
    by (simp add: float64_eval)
  have n: "Math_round (3665038759253333 / 2 ^ 39) = 6667"
    by (simp add: Math_round_def)
  have r: "float64 (6667 / 100) = 4691484174324859 / 2 ^ 46"
    by (simp add: float64_eval)
  have "hitRate (fst (getStats hitsAndMisses now)) =
     float64 (real_of_int (Math_round (float64 (float64 (2 / 3) * 10000))) / 100)"
    by (simp add: getStats_hitRate_eq hitsAndMisses_stats)
  then show ?thesis unfolding q y n using r by simp
qed

text \<open>
  C8, as amended. \<open>getStats\<close> leaves the engine, and so its hit and miss counters, as it
  was, and reports the counters as they are. With no hit and no miss counted, \<open>hitRate\<close>
  is 0. Otherwise, as long as fewer than \<open>2 ^ 37\<close> hits and misses have been counted,
  \<open>hitRate\<close> is the double nearest to \<open>n / 100\<close> for a whole number \<open>n\<close> that is not negative
  and for which \<open>n / 100\<close> is within half a hundredth of
  \<open>hitCount / (hitCount + missCount) \<times> 100\<close>: the exact percentage rounded to two decimals,
  a half going either way, and then rounded to a double, which moves it by at most one
  part in \<open>2 ^ 53\<close>.
\<close>

theorem getStats_hitRate_rounding:
  "snd (getStats s now) = s
   \<and> statHitCount (fst (getStats s now)) = hitCount (stats s)
   \<and> statMissCount (fst (getStats s now)) = missCount (stats s)
   \<and> (hitCount (stats s) + missCount (stats s) = 0 \<longrightarrow> hitRate (fst (getStats s now)) = 0)
   \<and> (0 < hitCount (stats s) + missCount (stats s)
        \<and> hitCount (stats s) + missCount (stats s) < 2 ^ 37 \<longrightarrow>
        (\<exists>n :: int. 0 \<le> n
           \<and> hitRate (fst (getStats s now)) = float64 (real_of_int n / 100)
           \<and> \<bar>real_of_int n / 100
                - real (hitCount (stats s)) / real (hitCount (stats s) + missCount (stats s)) * 100\<bar>
               \<le> 1 / 200
           \<and> \<bar>float64 (real_of_int n / 100) - real_of_int n / 100\<bar>
               \<le> real_of_int n / 100 / 2 ^ 53))"
proof -
  let ?h = "hitCount (stats s)" and ?m = "missCount (stats s)"
  let ?n = "Math_round (float64 (float64 (real ?h / real (?h + ?m)) * 10000))"
  have unchanged: "snd (getStats s now) = s" by (simp add: getStats_def Let_def)
  have hc: "statHitCount (fst (getStats s now)) = ?h" by (simp add: getStats_def Let_def)
  have mc: "statMissCount (fst (getStats s now)) = ?m" by (simp add: getStats_def Let_def)
  have zero: "?h + ?m = 0 \<longrightarrow> hitRate (fst (getStats s now)) = 0"
    by (simp add: getStats_def Let_def Math_round_def)
  have pos: "0 < ?h + ?m \<and> ?h + ?m < 2 ^ 37 \<longrightarrow>
        (\<exists>n :: int. 0 \<le> n
           \<and> hitRate (fst (getStats s now)) = float64 (real_of_int n / 100)
           \<and> \<bar>real_of_int n / 100 - real ?h / real (?h + ?m) * 100\<bar> \<le> 1 / 200
           \<and> \<bar>float64 (real_of_int n / 100) - real_of_int n / 100\<bar>
               \<le> real_of_int n / 100 / 2 ^ 53)"
  proof
    assume a: "0 < ?h + ?m \<and> ?h + ?m < 2 ^ 37"
    then have r: "hitRate (fst (getStats s now)) = float64 (real_of_int ?n / 100)"
      using getStats_hitRate_eq[of s now] by simp
    from a have a1: "0 < ?h + ?m" and a2: "?h + ?m < 2 ^ 37" by simp_all
    from hitRate_integer_nearest[OF a1 a2]
    have n0: "0 \<le> ?n"
      and near: "\<bar>real_of_int ?n - 10000 * real ?h / real (?h + ?m)\<bar> \<le> 1 / 2"
      by simp_all
    define q where "q = real ?h / real (?h + ?m)"
    have "\<bar>real_of_int ?n - 10000 * q\<bar> \<le> 1 / 2" using near by (simp add: q_def)
    then have "\<bar>real_of_int ?n / 100 - q * 100\<bar> \<le> 1 / 200" by linarith
    then have near': "\<bar>real_of_int ?n / 100 - real ?h / real (?h + ?m) * 100\<bar> \<le> 1 / 200"
      by (simp only: q_def)
    have dbl: "\<bar>float64 (real_of_int ?n / 100) - real_of_int ?n / 100\<bar>
        \<le> real_of_int ?n / 100 / 2 ^ 53"
    proof (cases "?n = 0")
      case True
      then show ?thesis by simp
    next
      case False
      with n0 have "0 < real_of_int ?n / 100" by simp
      then show ?thesis by (rule float64_error)
    qed
    from n0 r near' dbl show "\<exists>n :: int. 0 \<le> n
           \<and> hitRate (fst (getStats s now)) = float64 (real_of_int n / 100)
           \<and> \<bar>real_of_int n / 100 - real ?h / real (?h + ?m) * 100\<bar> \<le> 1 / 200
           \<and> \<bar>float64 (real_of_int n / 100) - real_of_int n / 100\<bar>
               \<le> real_of_int n / 100 / 2 ^ 53"
      by blast
  qed
  from unchanged hc mc zero pos show ?thesis by blast
qed

theorem getStats_hitRate_rounding_witness:
  "hitCount (stats hitsAndMisses) + missCount (stats hitsAndMisses) = 3
   \<and> hitRate (fst (getStats hitsAndMisses 5)) = float64 (6667 / 100)
   \<and> float64 (6667 / 100) = 4691484174324859 / 2 ^ 46
   \<and> snd (getStats hitsAndMisses 5) = hitsAndMisses
   \<and> hitRate (fst (getStats (newCacheEngine 0 defaultConfig None) 5)) = 0"
proof -
  have r: "float64 (6667 / 100) = 4691484174324859 / 2 ^ 46"
    by (simp add: float64_eval)
  have fresh: "hitCount (stats (newCacheEngine 0 defaultConfig None))
      + missCount (stats (newCacheEngine 0 defaultConfig None)) = 0"
    by (simp add: newCacheEngine_def)
  have three: "hitCount (stats hitsAndMisses) + missCount (stats hitsAndMisses) = 3"
    by (simp add: hitsAndMisses_stats)
  from getStats_hitRate_rounding[of hitsAndMisses 5]
  have u: "snd (getStats hitsAndMisses 5) = hitsAndMisses" by blast
  from getStats_hitRate_rounding[of "newCacheEngine 0 defaultConfig None" 5] fresh
  have z: "hitRate (fst (getStats (newCacheEngine 0 defaultConfig None) 5)) = 0" by blast
  from three u z r hitsAndMisses_hitRate[of 5] show ?thesis by simp
qed

text \<open>
  C8 as stated fails. With 57 hits and 743 misses the exact percentage is 7.125, which
  rounds to 7.13; the quotient computed in doubles, times 10000, is just below 712.5 and
  \<open>hitRate\<close> is the double nearest to 7.12. With 571460282383 hits and 330679243046
  misses the exact percentage is just below 63.345 and rounds to 63.34; \<open>hitRate\<close> is the
  double nearest to 63.35, more than half a hundredth away from the exact percentage.
\<close>

theorem getStats_hitRate_not_rounded:
  "hitCount (stats tied) = 57 \<and> missCount (stats tied) = 743
   \<and> percentRoundedToTwoDecimals 57 743 = 713 / 100
   \<and> hitRate (fst (getStats tied 5)) = 8016407336719483 / 2 ^ 50
   \<and> hitRate (fst (getStats tied 5)) < percentRoundedToTwoDecimals 57 743 - 1 / 200
   \<and> hitCount (stats flipped) = 571460282383 \<and> missCount (stats flipped) = 330679243046
   \<and> percentRoundedToTwoDecimals 571460282383 330679243046 = 6334 / 100
   \<and> hitRate (fst (getStats flipped 5)) = 8915719887310029 / 2 ^ 47
   \<and> percentRoundedToTwoDecimals 571460282383 330679243046 + 1 / 200
       < hitRate (fst (getStats flipped 5))
   \<and> 1 / 200 < \<bar>hitRate (fst (getStats flipped 5))
                   - 571460282383 / (571460282383 + 330679243046) * 100\<bar>"
proof -
  have p1: "percentRoundedToTwoDecimals 57 743 = 713 / 100"
    by (simp add: percentRoundedToTwoDecimals_def)
  have p2: "percentRoundedToTwoDecimals 571460282383 330679243046 = 6334 / 100"
    by (simp add: percentRoundedToTwoDecimals_def)
  show ?thesis
    unfolding p1 p2 tied_hitRate flipped_hitRate
    by (simp add: tied_stats flipped_stats)
qed

end
